theory Spec2Isabelle
  imports Main "HOL-Library.AList"
begin

section \<open>Python values, exceptions and builtins\<close>

text \<open>
  The values that flow through \<^verbatim>\<open>elastalert/alerters/iris.py\<close>: rule options read from
  the YAML rule, fields of a match, JSON bodies. A Python dict with string keys is an
  association list (the first binding of a key is the live one).
\<close>

datatype pyval =
    PNone
  | PBool bool
  | PInt int
  | PStr string
  | PList "pyval list"
  | PDict "(string \<times> pyval) list"

type_synonym dict = "(string \<times> pyval) list"

datatype exc =
    EAException string
  | RequestException string
  | IndexError
  | KeyError string
  | AttributeError string
  | TypeError string
  | OtherException string

text \<open>Python truthiness (\<^verbatim>\<open>if x:\<close>, \<^verbatim>\<open>not x\<close>).\<close>

fun truthy :: "pyval \<Rightarrow> bool" where
  "truthy PNone = False"
| "truthy (PBool b) = b"
| "truthy (PInt i) = (i \<noteq> 0)"
| "truthy (PStr s) = (s \<noteq> [])"
| "truthy (PList xs) = (xs \<noteq> [])"
| "truthy (PDict d) = (d \<noteq> [])"

text \<open>\<^verbatim>\<open>d.get(k, default)\<close> and \<^verbatim>\<open>d.update({k: v})\<close> on a dict.\<close>

definition dict_get :: "dict \<Rightarrow> string \<Rightarrow> pyval \<Rightarrow> pyval" where
  "dict_get d k dflt = (case map_of d k of Some v \<Rightarrow> v | None \<Rightarrow> dflt)"

definition dict_update :: "string \<Rightarrow> pyval \<Rightarrow> dict \<Rightarrow> dict" where
  "dict_update k v d = AList.update k v d"

text \<open>Decimal conversion of integers, as \<^verbatim>\<open>str\<close> does it.\<close>

definition digit_char :: "nat \<Rightarrow> char" where
  "digit_char d = char_of (48 + d)"

function nat_to_str :: "nat \<Rightarrow> string" where
  "nat_to_str n = (if n < 10 then [digit_char n] else nat_to_str (n div 10) @ [digit_char (n mod 10)])"
  by pat_completeness auto
termination
  by (relation "measure id") auto

declare nat_to_str.simps [simp del]

definition int_to_str :: "int \<Rightarrow> string" where
  "int_to_str i = (if i < 0 then CHR ''-'' # nat_to_str (nat (- i)) else nat_to_str (nat i))"

text \<open>
  \<^verbatim>\<open>str(v)\<close>, which is also what an f-string field \<^verbatim>\<open>{v}\<close> produces for these values.
  The text of a list or of a dict (Python prints the \<^verbatim>\<open>repr\<close> of the elements) is left
  to the parameter \<open>container_str\<close>.
\<close>

definition py_str :: "(pyval \<Rightarrow> string) \<Rightarrow> pyval \<Rightarrow> string" where
  "py_str container_str v =
     (case v of
        PNone \<Rightarrow> ''None''
      | PBool b \<Rightarrow> (if b then ''True'' else ''False'')
      | PInt i \<Rightarrow> int_to_str i
      | PStr s \<Rightarrow> s
      | PList xs \<Rightarrow> container_str v
      | PDict d \<Rightarrow> container_str v)"

text \<open>\<^verbatim>\<open>sep.join(xs)\<close>.\<close>

fun py_join :: "string \<Rightarrow> string list \<Rightarrow> string" where
  "py_join sep [] = []"
| "py_join sep [x] = x"
| "py_join sep (x # y # ys) = x @ sep @ py_join sep (y # ys)"

text \<open>\<^verbatim>\<open>sub in s\<close> on strings: \<open>sub\<close> occurs in \<open>s\<close> as a contiguous run.\<close>

fun str_contains :: "string \<Rightarrow> string \<Rightarrow> bool" where
  "str_contains sub [] = (sub = [])"
| "str_contains sub (c # cs) = (take (length sub) (c # cs) = sub \<or> str_contains sub cs)"

text \<open>
  \<^verbatim>\<open>x in v\<close> for a string \<open>x\<close>: substring test on a string, membership on a list, key
  membership on a dict; the other values are not iterable.
\<close>

definition py_in :: "string \<Rightarrow> pyval \<Rightarrow> exc + bool" where
  "py_in x v =
     (case v of
        PStr s \<Rightarrow> Inr (str_contains x s)
      | PList xs \<Rightarrow> Inr (PStr x \<in> set xs)
      | PDict d \<Rightarrow> Inr (x \<in> set (map fst d))
      | _ \<Rightarrow> Inl (TypeError ''argument is not iterable''))"

section \<open>The regular expression of the formatter\<close>

text \<open>
  The pattern \<^verbatim>\<open>\{0\[([^\]]+)\]\}\<close> tried at the head of the text: the three characters
  \<^verbatim>\<open>{0[\<close>, then a non-empty run of characters other than \<^verbatim>\<open>]\<close> (the group), then
  \<^verbatim>\<open>]}\<close>. The run is greedy, and giving a character back never helps, since the
  character given back is not \<^verbatim>\<open>]\<close>. The result is the group and the text after the match.
\<close>

definition match_token :: "string \<Rightarrow> (string \<times> string) option" where
  "match_token s =
     (if take 3 s = ''{0[''
      then (let r = drop 3 s;
                field_name = takeWhile (\<lambda>c. c \<noteq> CHR '']'') r;
                after = dropWhile (\<lambda>c. c \<noteq> CHR '']'') r
            in if field_name \<noteq> [] \<and> take 2 after = '']}''
               then Some (field_name, drop 2 after) else None)
      else None)"

text \<open>
  \<^verbatim>\<open>re.sub(pattern, repl, s)\<close> with a function \<open>repl\<close> of the group: the text is scanned
  from the left; where the pattern matches, the replacement is emitted and the scan
  resumes after the match; elsewhere one character is copied. An exception raised by
  \<open>repl\<close> ends the substitution.
\<close>

function re_sub :: "(string \<Rightarrow> exc + string) \<Rightarrow> string \<Rightarrow> exc + string" where
  "re_sub repl [] = Inr []"
| "re_sub repl (c # cs) =
     (case match_token (c # cs) of
        Some (g, rest) \<Rightarrow>
          (case repl g of
             Inl e \<Rightarrow> Inl e
           | Inr r \<Rightarrow> (case re_sub repl rest of Inl e \<Rightarrow> Inl e | Inr out \<Rightarrow> Inr (r @ out)))
      | None \<Rightarrow> (case re_sub repl cs of Inl e \<Rightarrow> Inl e | Inr out \<Rightarrow> Inr (c # out)))"
  by pat_completeness auto
termination
proof (relation "measure (\<lambda>(repl, s). length s)", goal_cases)
  case 1
  show ?case by simp
next
  case (2 repl c cs)
  show ?case by simp
next
  case (3 repl c cs x2 g rest r)
  let ?r = "drop 3 (c # cs)"
  from 3(1,2) have "rest = drop 2 (dropWhile (\<lambda>c. c \<noteq> CHR '']'') ?r)"
    by (auto simp: match_token_def Let_def split: if_splits)
  moreover have "length (dropWhile (\<lambda>c. c \<noteq> CHR '']'') ?r) \<le> length ?r"
    by (rule length_dropWhile_le)
  ultimately show ?case by simp
qed

section \<open>The alerter object and its collaborators\<close>

text \<open>A call \<^verbatim>\<open>requests.post(url=..., headers=..., json=..., verify=...)\<close>.\<close>

record request =
  req_url :: string
  req_headers :: dict
  req_json :: pyval
  req_verify :: pyval

text \<open>
  The response object: its \<^verbatim>\<open>status_code\<close>, and what \<^verbatim>\<open>.json()\<close> does (returns the parsed
  body or raises).
\<close>

record response =
  status_code :: int
  json :: "exc + pyval"

text \<open>
  What an invocation does to the outside: HTTP calls with their outcome, log lines of
  \<^verbatim>\<open>elastalert_logger.info\<close>, and the call of
  \<^verbatim>\<open>requests.packages.urllib3.disable_warnings\<close>.
\<close>

datatype event =
    Post request "exc + response"
  | LogInfo string
  | DisableWarnings

text \<open>
  The collaborators of the module, which are not part of it:
  \<^item> \<open>lookup_es_key\<close> of \<^verbatim>\<open>elastalert.util\<close> (the value at a field path of a match, or
    \<^verbatim>\<open>None\<close>);
  \<^item> \<open>container_str\<close>, the text Python prints for a list or a dict;
  \<^item> \<open>create_title\<close> and \<open>create_alert_body\<close> of the base class \<^verbatim>\<open>Alerter\<close>;
  \<^item> \<open>strftime_now\<close>, the value of \<^verbatim>\<open>datetime.now().strftime("%Y-%m-%dT%H:%M:%S")\<close>;
  \<^item> \<open>uuid4\<close>, the value of \<^verbatim>\<open>str(uuid.uuid4())\<close>;
  \<^item> \<open>requests_post\<close>, the server and the transport: given the requests issued so far
    in this invocation and the present one, a response or a raised exception.
\<close>

record env =
  lookup_es_key :: "dict \<Rightarrow> pyval \<Rightarrow> pyval"
  container_str :: "pyval \<Rightarrow> string"
  create_title :: "dict list \<Rightarrow> pyval"
  create_alert_body :: "dict list \<Rightarrow> pyval"
  strftime_now :: string
  uuid4 :: string
  requests_post :: "request list \<Rightarrow> request \<Rightarrow> exc + response"

abbreviation str_of :: "env \<Rightarrow> pyval \<Rightarrow> string" where
  "str_of env \<equiv> py_str (container_str env)"

text \<open>The attributes set by \<^verbatim>\<open>IrisAlerter.__init__\<close>.\<close>

record iris =
  rule :: dict
  url :: string
  api_token :: pyval
  customer_id :: pyval
  ca_cert :: pyval
  ignore_ssl_errors :: pyval
  description :: pyval
  overwrite_timestamp :: pyval
  type :: pyval
  case_template_id :: pyval
  headers :: dict
  alert_note :: pyval
  alert_source :: pyval
  alert_tags :: pyval
  alert_status_id :: pyval
  alert_source_link :: pyval
  alert_severity_id :: pyval
  alert_context :: pyval
  iocs :: pyval

definition init :: "env \<Rightarrow> dict \<Rightarrow> iris" where
  "init env r =
     \<lparr> rule = r,
       url = ''https://'' @ str_of env (dict_get r ''iris_host'' PNone),
       api_token = dict_get r ''iris_api_token'' PNone,
       customer_id = dict_get r ''iris_customer_id'' (PInt 1),
       ca_cert = dict_get r ''iris_ca_cert'' PNone,
       ignore_ssl_errors = dict_get r ''iris_ignore_ssl_errors'' (PBool False),
       description = dict_get r ''iris_description'' PNone,
       overwrite_timestamp = dict_get r ''iris_overwrite_timestamp'' (PBool False),
       type = dict_get r ''iris_type'' (PStr ''alert''),
       case_template_id = dict_get r ''iris_case_template_id'' PNone,
       headers =
         [(''Content-Type'', PStr ''application/json''),
          (''Authorization'', PStr (''Bearer '' @ str_of env (dict_get r ''iris_api_token'' PNone)))],
       alert_note = dict_get r ''iris_alert_note'' PNone,
       alert_source = dict_get r ''iris_alert_source'' (PStr ''ElastAlert2''),
       alert_tags = dict_get r ''iris_alert_tags'' PNone,
       alert_status_id = dict_get r ''iris_alert_status_id'' (PInt 2),
       alert_source_link = dict_get r ''iris_alert_source_link'' PNone,
       alert_severity_id = dict_get r ''iris_alert_severity_id'' (PInt 1),
       alert_context = dict_get r ''iris_alert_context'' PNone,
       iocs = dict_get r ''iris_iocs'' PNone \<rparr>"

section \<open>Field resolver\<close>

text \<open>
  \<^verbatim>\<open>self.rule.get(field_name, default)\<close> with a key that is any value: a list or a dict
  is not hashable; a key that is not a string is not a key of the rule.
\<close>

definition rule_get :: "dict \<Rightarrow> pyval \<Rightarrow> pyval \<Rightarrow> exc + pyval" where
  "rule_get r k dflt =
     (case k of
        PStr s \<Rightarrow> Inr (dict_get r s dflt)
      | PList xs \<Rightarrow> Inl (TypeError ''unhashable type'')
      | PDict d \<Rightarrow> Inl (TypeError ''unhashable type'')
      | _ \<Rightarrow> Inr dflt)"

definition lookup_field :: "env \<Rightarrow> iris \<Rightarrow> dict \<Rightarrow> pyval \<Rightarrow> pyval \<Rightarrow> exc + pyval" where
  "lookup_field env self match field_name dflt =
     (let field_value = lookup_es_key env match field_name
      in if field_value = PNone then rule_get (rule self) field_name dflt
         else Inr field_value)"

section \<open>Template formatter\<close>

text \<open>
  The inner function \<^verbatim>\<open>replace_field\<close> of \<^verbatim>\<open>format_string_with_match\<close>; it reads
  \<^verbatim>\<open>matches[0]\<close> each time it is called, which raises on an empty list.
\<close>

definition replace_field :: "env \<Rightarrow> dict list \<Rightarrow> string \<Rightarrow> exc + string" where
  "replace_field env matches field_name =
     (case matches of
        [] \<Rightarrow> Inl IndexError
      | m # ms \<Rightarrow>
          (let field_value = lookup_es_key env m (PStr field_name)
           in if field_value \<noteq> PNone
              then (case field_value of
                      PList items \<Rightarrow> Inr (py_join '', '' (map (str_of env) items))
                    | _ \<Rightarrow> Inr (str_of env field_value))
              else Inr (''<MISSING: '' @ field_name @ ''>'')))"

definition format_string_with_match :: "env \<Rightarrow> pyval \<Rightarrow> dict list \<Rightarrow> exc + pyval" where
  "format_string_with_match env template_string matches =
     (if template_string = PNone then Inr PNone
      else (case re_sub (replace_field env matches) (str_of env template_string) of
              Inl e \<Rightarrow> Inl e
            | Inr s \<Rightarrow> Inr (PStr s)))"

section \<open>Context and IOC records\<close>

text \<open>The loop of \<^verbatim>\<open>make_alert_context_records\<close> over \<^verbatim>\<open>self.alert_context.items()\<close>; \<open>ctx\<close> is the
  dict built so far.\<close>

fun context_loop :: "env \<Rightarrow> iris \<Rightarrow> dict list \<Rightarrow> dict \<Rightarrow> dict \<Rightarrow> exc + dict" where
  "context_loop env self matches [] ctx = Inr ctx"
| "context_loop env self matches ((key, val) # items) ctx =
     (case matches of
        [] \<Rightarrow> Inl IndexError
      | m # ms \<Rightarrow>
          (case lookup_field env self m val (PStr []) of
             Inl e \<Rightarrow> Inl e
           | Inr v \<Rightarrow>
               context_loop env self matches items
                 (dict_update key (PStr (str_of env v)) ctx)))"

definition make_alert_context_records :: "env \<Rightarrow> iris \<Rightarrow> dict list \<Rightarrow> exc + dict" where
  "make_alert_context_records env self matches =
     (case alert_context self of
        PDict d \<Rightarrow> context_loop env self matches d []
      | _ \<Rightarrow> Inl (AttributeError ''items''))"

text \<open>
  The loop of \<^verbatim>\<open>make_iocs_records\<close>; the last argument \<open>acc\<close> is the list \<^verbatim>\<open>iocs\<close> built so far.
  A record that is a dict is copied, \<^verbatim>\<open>matches[0]\<close> and then \<^verbatim>\<open>record['ioc_value']\<close> are
  read, and the copy is kept when the value found is not \<^verbatim>\<open>None\<close>. A record that is a list
  has \<^verbatim>\<open>copy\<close> but no string index; the other values have no \<^verbatim>\<open>copy\<close>.
\<close>

fun iocs_loop :: "env \<Rightarrow> dict list \<Rightarrow> pyval list \<Rightarrow> dict list \<Rightarrow> exc + dict list" where
  "iocs_loop env matches [] acc = Inr acc"
| "iocs_loop env matches (record # records) acc =
     (case record of
        PDict r \<Rightarrow>
          (case matches of
             [] \<Rightarrow> Inl IndexError
           | m # ms \<Rightarrow>
               (case map_of r ''ioc_value'' of
                  None \<Rightarrow> Inl (KeyError ''ioc_value'')
                | Some path \<Rightarrow>
                    (let record_data = dict_update ''ioc_value'' (lookup_es_key env m path) r
                     in if dict_get record_data ''ioc_value'' PNone \<noteq> PNone
                        then iocs_loop env matches records (acc @ [record_data])
                        else iocs_loop env matches records acc)))
      | PList xs \<Rightarrow>
          (case matches of
             [] \<Rightarrow> Inl IndexError
           | m # ms \<Rightarrow> Inl (TypeError ''list indices must be integers or slices, not str''))
      | _ \<Rightarrow> Inl (AttributeError ''copy''))"

text \<open>
  Iterating \<^verbatim>\<open>self.iocs\<close>: a list gives its elements; a string gives its characters and
  a dict its keys, which are strings and have no \<^verbatim>\<open>copy\<close>; the other values are not
  iterable.
\<close>

definition make_iocs_records :: "env \<Rightarrow> iris \<Rightarrow> dict list \<Rightarrow> exc + dict list" where
  "make_iocs_records env self matches =
     (case iocs self of
        PList records \<Rightarrow> iocs_loop env matches records []
      | PStr s \<Rightarrow> (if s = [] then Inr [] else Inl (AttributeError ''copy''))
      | PDict d \<Rightarrow> (if d = [] then Inr [] else Inl (AttributeError ''copy''))
      | _ \<Rightarrow> Inl (TypeError ''object is not iterable''))"

section \<open>Payload builder\<close>

text \<open>
  \<^verbatim>\<open>make_alert\<close>. The events are the one log line about the tags; an exception raised
  before it leaves no event.
\<close>

definition make_alert :: "env \<Rightarrow> iris \<Rightarrow> dict list \<Rightarrow> event list \<times> (exc + dict)" where
  "make_alert env self matches =
     (case (if truthy (overwrite_timestamp self)
            then (case matches of [] \<Rightarrow> Inl IndexError
                  | m # ms \<Rightarrow> Inr (dict_get m ''@timestamp'' PNone))
            else Inr (PStr (strftime_now env))) of
        Inl e \<Rightarrow> ([], Inl e)
      | Inr event_timestamp \<Rightarrow>
     (case format_string_with_match env (description self) matches of
        Inl e \<Rightarrow> ([], Inl e)
      | Inr formatted_description \<Rightarrow>
     (case format_string_with_match env (alert_note self) matches of
        Inl e \<Rightarrow> ([], Inl e)
      | Inr formatted_alert_note \<Rightarrow>
     (case format_string_with_match env (alert_tags self) matches of
        Inl e \<Rightarrow> ([], Inl e)
      | Inr formatted_alert_tags \<Rightarrow>
     (let log = [LogInfo (''IRIS Alert Tags: '' @ str_of env formatted_alert_tags)];
          title = create_title env matches
      in
     (case (if str_contains ''{0['' (str_of env title)
            then format_string_with_match env title matches
            else Inr title) of
        Inl e \<Rightarrow> (log, Inl e)
      | Inr alert_title \<Rightarrow>
     (let alert_data0 =
            [(''alert_title'', alert_title),
             (''alert_description'', formatted_description),
             (''alert_source'', alert_source self),
             (''alert_severity_id'', alert_severity_id self),
             (''alert_status_id'', alert_status_id self),
             (''alert_source_event_time'', event_timestamp),
             (''alert_note'', formatted_alert_note),
             (''alert_tags'', formatted_alert_tags),
             (''alert_customer_id'', customer_id self)];
          alert_data1 =
            (if \<not> truthy (description self)
             then dict_update ''alert_description'' (create_alert_body env matches) alert_data0
             else alert_data0);
          alert_data2 =
            (if truthy (alert_source_link self)
             then dict_update ''alert_source_link'' (alert_source_link self) alert_data1
             else alert_data1)
      in
     (case (if truthy (iocs self)
            then (case make_iocs_records env self matches of
                    Inl e \<Rightarrow> Inl e
                  | Inr rs \<Rightarrow> Inr (dict_update ''alert_iocs'' (PList (map PDict rs)) alert_data2))
            else Inr alert_data2) of
        Inl e \<Rightarrow> (log, Inl e)
      | Inr alert_data3 \<Rightarrow>
     (case (if truthy (alert_context self)
            then (case make_alert_context_records env self matches of
                    Inl e \<Rightarrow> Inl e
                  | Inr c \<Rightarrow> Inr (dict_update ''alert_context'' (PDict c) alert_data3))
            else Inr alert_data3) of
        Inl e \<Rightarrow> (log, Inl e)
      | Inr alert_data \<Rightarrow> (log, Inr alert_data))))))))))"

text \<open>\<^verbatim>\<open>make_case\<close>: the case payload and the IOC records.\<close>

definition make_case :: "env \<Rightarrow> iris \<Rightarrow> dict list \<Rightarrow> exc + (dict \<times> dict list)" where
  "make_case env self matches =
     (let case_data0 =
            [(''case_soc_id'', PStr (''SOC_'' @ take 6 (uuid4 env))),
             (''case_customer'', customer_id self),
             (''case_name'', dict_get (rule self) ''name'' PNone),
             (''case_description'', description self)]
      in
     (case (if truthy (iocs self) then make_iocs_records env self matches else Inr []) of
        Inl e \<Rightarrow> Inl e
      | Inr rs \<Rightarrow>
          Inr (if truthy (case_template_id self)
               then dict_update ''case_template_id'' (case_template_id self) case_data0
               else case_data0,
               rs)))"

section \<open>Submission orchestrator\<close>

text \<open>\<^verbatim>\<open>v.get(k, default)\<close> on a value of a JSON body: only a dict has \<^verbatim>\<open>get\<close>.\<close>

definition py_get :: "pyval \<Rightarrow> string \<Rightarrow> pyval \<Rightarrow> exc + pyval" where
  "py_get v k dflt =
     (case v of
        PDict d \<Rightarrow> Inr (dict_get d k dflt)
      | _ \<Rightarrow> Inl (AttributeError ''get''))"

definition ioc_request :: "iris \<Rightarrow> pyval \<Rightarrow> pyval \<Rightarrow> dict \<Rightarrow> request" where
  "ioc_request self verify case_id ioc =
     \<lparr> req_url = url self @ ''/case/ioc/add'',
       req_headers = headers self,
       req_json = PDict (dict_update ''cid'' case_id ioc),
       req_verify = verify \<rparr>"

text \<open>
  The loop \<^verbatim>\<open>for ioc in iocs\<close> of \<^verbatim>\<open>alert\<close> (lines 214 to 234); \<open>hist\<close> holds the requests
  issued before. A \<^verbatim>\<open>RequestException\<close> of the call is raised again as an
  \<^verbatim>\<open>EAException\<close>; any other exception passes through; a status other than 200 raises
  an \<^verbatim>\<open>EAException\<close>, which ends the loop.
\<close>

fun attach_iocs :: "env \<Rightarrow> iris \<Rightarrow> pyval \<Rightarrow> pyval \<Rightarrow> request list \<Rightarrow> dict list \<Rightarrow> event list \<times> (exc + unit)" where
  "attach_iocs env self verify case_id hist [] = ([], Inr ())"
| "attach_iocs env self verify case_id hist (ioc # rest) =
     (let req = ioc_request self verify case_id ioc;
          out = requests_post env hist req
      in case out of
           Inl (RequestException e) \<Rightarrow>
             ([Post req out],
              Inl (EAException (''Error when adding IOC to the case '' @ str_of env case_id @ '': '' @ e)))
         | Inl e \<Rightarrow> ([Post req out], Inl e)
         | Inr response_ioc \<Rightarrow>
             (if status_code response_ioc \<noteq> 200
              then ([Post req out],
                    Inl (EAException (''Unable to add a new IOC to the case '' @ str_of env case_id)))
              else (case attach_iocs env self verify case_id (hist @ [req]) rest of
                      (evs, r) \<Rightarrow>
                        (Post req out # LogInfo ''IOCs successfully added to the case'' # evs, r))))"

text \<open>The branch \<^verbatim>\<open>if 'alert' in self.type\<close> of \<^verbatim>\<open>alert\<close> (lines 182 to 197).\<close>

definition alert_branch :: "env \<Rightarrow> iris \<Rightarrow> pyval \<Rightarrow> dict list \<Rightarrow> event list \<times> (exc + unit)" where
  "alert_branch env self verify matches =
     (case make_alert env self matches of
        (evs, Inl e) \<Rightarrow> (evs, Inl e)
      | (evs, Inr alert_data) \<Rightarrow>
          (let req = \<lparr> req_url = url self @ ''/alerts/add'', req_headers = headers self,
                       req_json = PDict alert_data, req_verify = verify \<rparr>;
               out = requests_post env [] req
           in case out of
                Inl (RequestException e) \<Rightarrow>
                  (evs @ [Post req out], Inl (EAException (''Error posting alert to Iris: '' @ e)))
              | Inl e \<Rightarrow> (evs @ [Post req out], Inl e)
              | Inr alert_response \<Rightarrow>
                  (if status_code alert_response \<noteq> 200
                   then (evs @ [Post req out],
                         Inl (EAException (''Cannot create a new alert: ''
                                           @ int_to_str (status_code alert_response))))
                   else (evs @ [Post req out, LogInfo ''Alert sent to Iris''], Inr ()))))"

text \<open>The branch \<^verbatim>\<open>elif 'case' in self.type\<close> of \<^verbatim>\<open>alert\<close> (lines 200 to 241).\<close>

definition case_branch :: "env \<Rightarrow> iris \<Rightarrow> pyval \<Rightarrow> dict list \<Rightarrow> event list \<times> (exc + unit)" where
  "case_branch env self verify matches =
     (case make_case env self matches of
        Inl e \<Rightarrow> ([], Inl e)
      | Inr (case_data, rs) \<Rightarrow>
          (let req = \<lparr> req_url = url self @ ''/manage/cases/add'', req_headers = headers self,
                       req_json = PDict case_data, req_verify = verify \<rparr>;
               out = requests_post env [] req
           in case out of
                Inl (RequestException e) \<Rightarrow>
                  ([Post req out], Inl (EAException (''Error posting the case to Iris: '' @ e)))
              | Inl e \<Rightarrow> ([Post req out], Inl e)
              | Inr case_response \<Rightarrow>
                  (if status_code case_response = 200
                   then (case json case_response of
                           Inl (RequestException e) \<Rightarrow>
                             ([Post req out],
                              Inl (EAException (''Error posting the case to Iris: '' @ e)))
                         | Inl e \<Rightarrow> ([Post req out], Inl e)
                         | Inr case_response_data \<Rightarrow>
                             (case py_get case_response_data ''data'' (PStr []) of
                                Inl e \<Rightarrow> ([Post req out], Inl e)
                              | Inr data \<Rightarrow>
                                  (case py_get data ''case_id'' PNone of
                                     Inl e \<Rightarrow> ([Post req out], Inl e)
                                   | Inr case_id \<Rightarrow>
                                       (case attach_iocs env self verify case_id [req] rs of
                                          (evs, Inl e) \<Rightarrow> (Post req out # evs, Inl e)
                                        | (evs, Inr u) \<Rightarrow>
                                            (Post req out # evs
                                               @ [LogInfo ''Case successfully created in Iris''],
                                             Inr ())))))
                   else ([Post req out],
                         Inl (EAException (''Cannot create a new case: ''
                                           @ int_to_str (status_code case_response)))))))"

text \<open>\<^verbatim>\<open>IrisAlerter.alert\<close>.\<close>

definition alert :: "env \<Rightarrow> iris \<Rightarrow> dict list \<Rightarrow> event list \<times> (exc + unit)" where
  "alert env self matches =
     (let verify = (if truthy (ca_cert self) then ca_cert self
                    else PBool (\<not> truthy (ignore_ssl_errors self)));
          warn = (if truthy (ignore_ssl_errors self) then [DisableWarnings] else [])
      in case py_in ''alert'' (type self) of
           Inl e \<Rightarrow> (warn, Inl e)
         | Inr is_alert \<Rightarrow>
             (if is_alert
              then (case alert_branch env self verify matches of (evs, r) \<Rightarrow> (warn @ evs, r))
              else (case py_in ''case'' (type self) of
                      Inl e \<Rightarrow> (warn, Inl e)
                    | Inr is_case \<Rightarrow>
                        (if is_case
                         then (case case_branch env self verify matches of
                                 (evs, r) \<Rightarrow> (warn @ evs, r))
                         else (warn, Inr ())))))"

definition get_info :: "iris \<Rightarrow> dict" where
  "get_info self = [(''type'', PStr ''IrisAlerter''), (''iris_api_endpoint'', PStr (url self))]"

text \<open>The HTTP calls among the events, in order.\<close>

fun posts :: "event list \<Rightarrow> request list" where
  "posts [] = []"
| "posts (Post req out # evs) = req # posts evs"
| "posts (ev # evs) = posts evs"

section \<open>Predicates of the statements and a concrete setting\<close>

text \<open>
  A text is token-free when the pattern matches at none of its positions, so that
  \<^verbatim>\<open>re.sub\<close> finds nothing to replace.
\<close>

fun token_free :: "string \<Rightarrow> bool" where
  "token_free [] = True"
| "token_free (c # cs) = (match_token (c # cs) = None \<and> token_free cs)"

text \<open>
  A text has no open token when every \<^verbatim>\<open>{0[\<close> in it is followed, later in the text, by a
  \<^verbatim>\<open>]\<close>. A \<^verbatim>\<open>{0[\<close> that is not would take what follows the text into its own group, up to
  the next \<^verbatim>\<open>]\<close>: the single flat-bracket grammar has no nesting.
\<close>

fun no_open_token :: "string \<Rightarrow> bool" where
  "no_open_token [] = True"
| "no_open_token (c # cs) =
     ((take 3 (c # cs) = ''{0['' \<longrightarrow> CHR '']'' \<in> set (drop 3 (c # cs))) \<and> no_open_token cs)"

text \<open>
  Modelled from the spec: \<^verbatim>\<open>lookup_es_key\<close> belongs to \<^verbatim>\<open>elastalert.util\<close>, whose source
  is not at hand; section 4.1 of the specification describes it as the look-up of a
  dotted path inside the match record, with \<^verbatim>\<open>None\<close> for an absent field. The functions
  above take it as the parameter \<open>lookup_es_key\<close>; \<open>dotted_lookup\<close> is the instance used in
  the concrete examples below.
\<close>

fun split_path :: "string \<Rightarrow> string \<Rightarrow> string list" where
  "split_path acc [] = [rev acc]"
| "split_path acc (c # cs) =
     (if c = CHR ''.'' then rev acc # split_path [] cs else split_path (c # acc) cs)"

fun descend :: "pyval \<Rightarrow> string list \<Rightarrow> pyval" where
  "descend v [] = v"
| "descend v (k # ks) =
     (case v of
        PDict d \<Rightarrow> (case map_of d k of Some v' \<Rightarrow> descend v' ks | None \<Rightarrow> PNone)
      | _ \<Rightarrow> PNone)"

definition dotted_lookup :: "dict \<Rightarrow> pyval \<Rightarrow> pyval" where
  "dotted_lookup m term =
     (case term of PStr p \<Rightarrow> descend (PDict m) (split_path [] p) | _ \<Rightarrow> PNone)"

text \<open>
  A concrete environment around a given server, a server that cannot be reached, and a
  concrete rule.
\<close>

definition example_env :: "(request list \<Rightarrow> request \<Rightarrow> exc + response) \<Rightarrow> env" where
  "example_env server =
     \<lparr> lookup_es_key = dotted_lookup,
       container_str = (\<lambda>v. ''[...]''),
       create_title = (\<lambda>ms. PStr ''Rule fired''),
       create_alert_body = (\<lambda>ms. PStr ''Rule fired: 1 match''),
       strftime_now = ''2024-05-01T12:00:00'',
       uuid4 = ''3f2a9c1e-0000-4000-8000-000000000000'',
       requests_post = server \<rparr>"

definition offline :: "request list \<Rightarrow> request \<Rightarrow> exc + response" where
  "offline hist req = Inl (RequestException ''connection refused'')"

definition example_rule :: dict where
  "example_rule =
     [(''name'', PStr ''ssh brute force''),
      (''iris_host'', PStr ''iris.example.org''),
      (''iris_api_token'', PStr ''token''),
      (''severity'', PStr ''high'')]"

text \<open>A rule with three IOC templates, and a match that resolves the first and, to an empty string, the third.\<close>

definition ioc_rule :: dict where
  "ioc_rule = example_rule @
     [(''iris_iocs'',
       PList [PDict [(''ioc_type_id'', PInt 76), (''ioc_value'', PStr ''src.ip'')],
              PDict [(''ioc_type_id'', PInt 20), (''ioc_value'', PStr ''host'')],
              PDict [(''ioc_type_id'', PInt 90), (''ioc_value'', PStr ''hash'')]])]"

definition ioc_match :: dict where
  "ioc_match = [(''src'', PDict [(''ip'', PStr ''10.0.0.7'')]), (''hash'', PStr [])]"

text \<open>The same rule with a description, a note and a source link.\<close>

definition described_rule :: dict where
  "described_rule = example_rule @
     [(''iris_description'', PStr ''Source {0[src.ip]}''),
      (''iris_alert_note'', PStr ''check {0[host]}''),
      (''iris_alert_source_link'', PStr ''https://siem.example.org'')]"

text \<open>
  Containment regardless of case, the reading of the mode test in section 4.5 of the
  specification: both texts are put in lower case (ASCII letters) before the test.
\<close>

definition lower_char :: "char \<Rightarrow> char" where
  "lower_char c = (let n = (of_char c :: nat) in if 65 \<le> n \<and> n \<le> 90 then char_of (n + 32) else c)"

definition contains_ci :: "string \<Rightarrow> string \<Rightarrow> bool" where
  "contains_ci sub s = str_contains (map lower_char sub) (map lower_char s)"

text \<open>
  Three servers: one that accepts every call and creates case 7; one that accepts the
  first two calls of an invocation and answers 404 from the third on; one that answers
  200 with a body that has no \<^verbatim>\<open>data\<close> key.
\<close>

definition accepting :: "request list \<Rightarrow> request \<Rightarrow> exc + response" where
  "accepting hist req =
     Inr \<lparr> status_code = 200, json = Inr (PDict [(''data'', PDict [(''case_id'', PInt 7)])]) \<rparr>"

definition fails_second :: "request list \<Rightarrow> request \<Rightarrow> exc + response" where
  "fails_second hist req =
     (if length hist < 2
      then Inr \<lparr> status_code = 200, json = Inr (PDict [(''data'', PDict [(''case_id'', PInt 7)])]) \<rparr>
      else Inr \<lparr> status_code = 404, json = Inr PNone \<rparr>)"

definition no_data :: "request list \<Rightarrow> request \<Rightarrow> exc + response" where
  "no_data hist req =
     Inr \<lparr> status_code = 200, json = Inr (PDict [(''status'', PStr ''success'')]) \<rparr>"



text \<open>
  Rules with the mode in upper case, with the mode \<^verbatim>\<open>case\<close>, and with a mode that names
  neither; a match that resolves the three IOC templates.
\<close>

definition shouting_rule :: dict where
  "shouting_rule = example_rule @ [(''iris_type'', PStr ''ALERT'')]"

definition case_rule :: dict where
  "case_rule = ioc_rule @ [(''iris_type'', PStr ''case'')]"

definition other_rule :: dict where
  "other_rule = example_rule @ [(''iris_type'', PStr ''follow-up'')]"

definition full_match :: dict where
  "full_match = ioc_match @ [(''host'', PStr ''web01'')]"

text \<open>A rule whose description is a single token, for a field that the match holds as the empty string.\<close>

definition empty_text_rule :: dict where
  "empty_text_rule = example_rule @ [(''iris_description'', PStr ''{0[hash]}'')]"

section \<open>Lemmas on dicts and on the substitution\<close>

lemma dict_get_update_same: "dict_get (dict_update k v d) k dflt = v"
  by (simp add: dict_get_def dict_update_def update_conv')

lemma keys_dict_update: "fst ` set (dict_update k v d) = insert k (fst ` set d)"
  by (simp add: dict_update_def dom_update)

lemma no_open_token_drop: "no_open_token s \<Longrightarrow> no_open_token (drop n s)"
proof (induction s arbitrary: n)
  case Nil
  then show ?case by simp
next
  case (Cons c cs)
  then show ?case by (cases n) simp_all
qed

lemma match_token_at_token:
  assumes "f \<noteq> []" and "CHR '']'' \<notin> set f"
  shows "match_token (''{0['' @ f @ '']}'' @ post) = Some (f, post)"
proof -
  have tw: "takeWhile (\<lambda>c. c \<noteq> CHR '']'') (f @ CHR '']'' # CHR ''}'' # post) = f"
    using assms(2) by (induction f) auto
  have dw: "dropWhile (\<lambda>c. c \<noteq> CHR '']'') (f @ CHR '']'' # CHR ''}'' # post)
            = CHR '']'' # CHR ''}'' # post"
    using assms(2) by (induction f) auto
  show ?thesis
    using assms(1) by (simp add: match_token_def Let_def tw dw)
qed

lemma match_token_rest_drop:
  "match_token s = Some (g, rest) \<Longrightarrow> \<exists>n. rest = drop n s"
  by (auto simp: match_token_def Let_def dropWhile_eq_drop split: if_splits)

lemma match_token_append:
  assumes "match_token s = Some (g, rest)"
  shows "match_token (s @ t) = Some (g, rest @ t)"
proof -
  let ?P = "\<lambda>c. c \<noteq> CHR '']''"
  let ?r = "drop 3 s"
  from assms have t3: "take 3 s = ''{0[''"
    and g: "g = takeWhile ?P ?r" and ne: "g \<noteq> []"
    and t2: "take 2 (dropWhile ?P ?r) = '']}''"
    and rest: "rest = drop 2 (dropWhile ?P ?r)"
    by (auto simp: match_token_def Let_def split: if_splits)
  from t3 have len: "3 \<le> length s"
    by (metis length_take min.cobounded1 length_Cons list.size(3) numeral_3_eq_3)
  have "\<not> (\<forall>x\<in>set ?r. ?P x)"
  proof
    assume "\<forall>x\<in>set ?r. ?P x"
    then have "dropWhile ?P ?r = []" by simp
    with t2 show False by simp
  qed
  then obtain x where x: "x \<in> set ?r" "\<not> ?P x" by blast
  have tw: "takeWhile ?P (?r @ t) = takeWhile ?P ?r"
    using x by (simp add: takeWhile_append1)
  have dw: "dropWhile ?P (?r @ t) = dropWhile ?P ?r @ t"
    using x by (simp add: dropWhile_append1)
  from t2 have l2: "2 \<le> length (dropWhile ?P ?r)"
    by (metis length_take min.cobounded1 length_Cons list.size(3) numeral_2_eq_2)
  show ?thesis
    using t3 len g ne t2 rest l2 by (simp add: match_token_def Let_def tw dw)
qed


lemma take3_short:
  assumes "length p < 3" and "p \<noteq> []"
  shows "take 3 (p @ CHR ''{'' # CHR ''0'' # CHR ''['' # x) \<noteq> ''{0[''"
proof (cases p)
  case Nil
  with assms show ?thesis by simp
next
  case (Cons a q)
  note pq = Cons
  show ?thesis
  proof (cases q)
    case Nil
    with pq show ?thesis by auto
  next
    case (Cons b q')
    with pq assms have "q' = []" by simp
    with pq Cons show ?thesis by auto
  qed
qed

lemma match_token_none_append:
  assumes none: "match_token p = None" and ne: "p \<noteq> []"
    and closed: "take 3 p = ''{0['' \<longrightarrow> CHR '']'' \<in> set (drop 3 p)"
  shows "match_token (p @ CHR ''{'' # CHR ''0'' # CHR ''['' # x) = None"
proof (cases "take 3 p = ''{0[''")
  case False
  show ?thesis
  proof (cases "length p < 3")
    case True
    from take3_short [OF True ne]
    have "take 3 (p @ CHR ''{'' # CHR ''0'' # CHR ''['' # x) \<noteq> ''{0[''" .
    then show ?thesis by (simp add: match_token_def)
  next
    case False
    with \<open>take 3 p \<noteq> ''{0[''\<close> show ?thesis by (simp add: match_token_def)
  qed
next
  case True
  let ?P = "\<lambda>c. c \<noteq> CHR '']''"
  let ?r = "drop 3 p"
  let ?s = "CHR ''{'' # CHR ''0'' # CHR ''['' # x"
  from True have len: "3 \<le> length p"
    by (metis length_take min.cobounded1 length_Cons list.size(3) numeral_3_eq_3)
  from True closed have mem: "CHR '']'' \<in> set ?r" by blast
  then have tw: "takeWhile ?P (?r @ ?s) = takeWhile ?P ?r"
    by (simp add: takeWhile_append1)
  from mem have dw: "dropWhile ?P (?r @ ?s) = dropWhile ?P ?r @ ?s"
    by (simp add: dropWhile_append1)
  from mem have "dropWhile ?P ?r \<noteq> []" by auto
  then obtain y ys where dys: "dropWhile ?P ?r = y # ys" by (cases "dropWhile ?P ?r") auto
  from none True have fail: "takeWhile ?P ?r = [] \<or> take 2 (dropWhile ?P ?r) \<noteq> '']}''"
    by (auto simp: match_token_def Let_def split: if_splits)
  have "takeWhile ?P ?r = [] \<or> take 2 (dropWhile ?P ?r @ ?s) \<noteq> '']}''"
  proof (cases "takeWhile ?P ?r = []")
    case True
    then show ?thesis by simp
  next
    case False
    with fail have "take 2 (y # ys) \<noteq> '']}''" using dys by simp
    then have "take 2 ((y # ys) @ ?s) \<noteq> '']}''" by (cases ys) auto
    with dys show ?thesis by simp
  qed
  with True len show ?thesis by (simp add: match_token_def Let_def tw dw)
qed

lemma re_sub_append_token:
  assumes "f \<noteq> []" and "CHR '']'' \<notin> set f"
  shows "no_open_token pre \<Longrightarrow> re_sub repl pre = Inr a \<Longrightarrow> repl f = Inr b
         \<Longrightarrow> re_sub repl post = Inr c
         \<Longrightarrow> re_sub repl (pre @ ''{0['' @ f @ '']}'' @ post) = Inr (a @ b @ c)"
proof (induction repl pre arbitrary: a rule: re_sub.induct)
  case (1 repl)
  from match_token_at_token [OF assms, of post]
  have "match_token (CHR ''{'' # CHR ''0'' # CHR ''['' # f @ CHR '']'' # CHR ''}'' # post) = Some (f, post)"
    by simp
  with 1 show ?case by simp
next
  case (2 repl ch cs)
  let ?s = "''{0['' @ f @ '']}'' @ post"
  show ?case
  proof (cases "match_token (ch # cs)")
    case None
    from "2.prems"(1) have closed: "take 3 (ch # cs) = ''{0['' \<longrightarrow> CHR '']'' \<in> set (drop 3 (ch # cs))"
      and nc: "no_open_token cs" by simp_all
    from "2.prems"(2) None obtain out where out: "re_sub repl cs = Inr out" and a: "a = ch # out"
      by (auto split: sum.splits)
    have m: "match_token ((ch # cs) @ CHR ''{'' # CHR ''0'' # CHR ''['' # (f @ '']}'' @ post)) = None"
      by (rule match_token_none_append [OF None _ closed]) simp
    from "2.IH"(1) [OF None nc out "2.prems"(3,4)]
    have "re_sub repl (cs @ ?s) = Inr (out @ b @ c)" .
    with m a show ?thesis by simp
  next
    case (Some gr)
    obtain g rest where gr: "gr = (g, rest)" by (cases gr)
    from Some gr have mt: "match_token (ch # cs) = Some (g, rest)" by simp
    from match_token_rest_drop [OF mt] "2.prems"(1) have nr: "no_open_token rest"
      using no_open_token_drop by blast
    from "2.prems"(2) mt obtain r out where r: "repl g = Inr r"
      and out: "re_sub repl rest = Inr out" and a: "a = r @ out"
      by (auto split: sum.splits)
    from match_token_append [OF mt, of ?s]
    have m: "match_token (ch # cs @ ?s) = Some (g, rest @ ?s)" by simp
    from "2.IH"(2) [OF Some gr [symmetric] r nr out "2.prems"(3,4)]
    have "re_sub repl (rest @ ?s) = Inr (out @ b @ c)" .
    with m r a show ?thesis by simp
  qed
qed


lemma re_sub_total:
  "(\<And>g. \<exists>r. repl g = Inr r) \<Longrightarrow> \<exists>out. re_sub repl s = Inr out"
proof (induction repl s rule: re_sub.induct)
  case (1 repl)
  show ?case by simp
next
  case (2 repl ch cs)
  show ?case
  proof (cases "match_token (ch # cs)")
    case None
    from "2.IH"(1) [OF None "2.prems"] obtain out where "re_sub repl cs = Inr out" by blast
    with None show ?thesis by simp
  next
    case (Some gr)
    obtain g rest where gr: "gr = (g, rest)" by (cases gr)
    from "2.prems" obtain r where r: "repl g = Inr r" by blast
    from "2.IH"(2) [OF Some gr [symmetric] r "2.prems"]
    obtain out where "re_sub repl rest = Inr out" by blast
    with Some gr r show ?thesis by simp
  qed
qed

lemma replace_field_total: "\<exists>r. replace_field env (m # ms) g = Inr r"
  by (simp add: replace_field_def Let_def split: pyval.splits)

lemma format_returns_string:
  "template \<noteq> PNone \<Longrightarrow> \<exists>out. format_string_with_match env template (m # ms) = Inr (PStr out)"
proof -
  assume t: "template \<noteq> PNone"
  from re_sub_total [of "replace_field env (m # ms)" "str_of env template"] replace_field_total
  obtain out where "re_sub (replace_field env (m # ms)) (str_of env template) = Inr out" by blast
  with t show ?thesis by (simp add: format_string_with_match_def)
qed

lemma format_at_token:
  assumes t: "template \<noteq> PNone"
    and split: "str_of env template = pre @ ''{0['' @ f @ '']}'' @ post"
    and closed: "no_open_token pre" and f: "f \<noteq> []" "CHR '']'' \<notin> set f"
    and r: "replace_field env (m # ms) f = Inr b"
  shows "\<exists>a c. format_string_with_match env (PStr pre) (m # ms) = Inr (PStr a)
            \<and> format_string_with_match env (PStr post) (m # ms) = Inr (PStr c)
            \<and> format_string_with_match env template (m # ms) = Inr (PStr (a @ b @ c))"
proof -
  let ?repl = "replace_field env (m # ms)"
  from re_sub_total [of ?repl pre] replace_field_total
  obtain a where a: "re_sub ?repl pre = Inr a" by blast
  from re_sub_total [of ?repl post] replace_field_total
  obtain c where c: "re_sub ?repl post = Inr c" by blast
  from re_sub_append_token [OF f closed a r c]
  have "re_sub ?repl (str_of env template) = Inr (a @ b @ c)" using split by simp
  with t a c show ?thesis by (simp add: format_string_with_match_def py_str_def)
qed

lemma token_free_iff: "token_free t \<longleftrightarrow> (\<forall>i<length t. match_token (drop i t) = None)"
proof (induction t)
  case Nil
  show ?case by simp
next
  case (Cons c cs)
  have "(\<forall>i<length (c # cs). match_token (drop i (c # cs)) = None)
        \<longleftrightarrow> match_token (c # cs) = None \<and> (\<forall>i<length cs. match_token (drop i cs) = None)"
    by (simp add: All_less_Suc2)
  with Cons show ?case by simp
qed

lemma re_sub_token_free: "token_free t \<Longrightarrow> re_sub repl t = Inr t"
  by (induction t) simp_all

lemma iocs_loop_dicts:
  assumes "\<forall>r\<in>set templates. ''ioc_value'' \<in> fst ` set r"
  shows "iocs_loop env (m # ms) (map PDict templates) acc =
     Inr (acc @ map (\<lambda>r. dict_update ''ioc_value'' (lookup_es_key env m (dict_get r ''ioc_value'' PNone)) r)
                  (filter (\<lambda>r. lookup_es_key env m (dict_get r ''ioc_value'' PNone) \<noteq> PNone) templates))"
  using assms
proof (induction templates arbitrary: acc)
  case Nil
  show ?case by simp
next
  case (Cons r rs)
  from Cons.prems have "''ioc_value'' \<in> fst ` set r" by simp
  then obtain p where p: "map_of r ''ioc_value'' = Some p"
    by (metis domD dom_map_of_conv_image_fst)
  from Cons.prems have rest: "\<forall>r\<in>set rs. ''ioc_value'' \<in> fst ` set r" by simp
  show ?case
    using p Cons.IH [OF rest]
    by (simp add: dict_get_update_same Let_def) (simp add: dict_get_def)
qed

section \<open>Lemmas on the alert payload\<close>

lemma map_of_dict_update:
  "map_of (dict_update k v d) k' = (if k' = k then Some v else map_of d k')"
  by (simp add: dict_update_def update_conv')

lemma key_cond_update:
  "k \<in> fst ` set ((if c then dict_update k' v else id) d) \<longleftrightarrow> (c \<and> k = k') \<or> k \<in> fst ` set d"
  by (auto simp: keys_dict_update)

lemma map_of_cond_update:
  "map_of ((if c then dict_update k' v else id) d) k = (if c \<and> k = k' then Some v else map_of d k)"
  by (simp add: map_of_dict_update)

lemma make_alert_shape:
  assumes A: "make_alert env self matches = (evs, Inr payload)"
  obtains ts fd fnote ftags title iv cv where
    "format_string_with_match env (description self) matches = Inr fd"
    and "format_string_with_match env (alert_note self) matches = Inr fnote"
    and "format_string_with_match env (alert_tags self) matches = Inr ftags"
    and "payload =
      (if truthy (alert_context self) then dict_update ''alert_context'' cv else id)
       ((if truthy (iocs self) then dict_update ''alert_iocs'' iv else id)
        ((if truthy (alert_source_link self)
          then dict_update ''alert_source_link'' (alert_source_link self) else id)
         ((if \<not> truthy (description self)
           then dict_update ''alert_description'' (create_alert_body env matches) else id)
          [(''alert_title'', title),
           (''alert_description'', fd),
           (''alert_source'', alert_source self),
           (''alert_severity_id'', alert_severity_id self),
           (''alert_status_id'', alert_status_id self),
           (''alert_source_event_time'', ts),
           (''alert_note'', fnote),
           (''alert_tags'', ftags),
           (''alert_customer_id'', customer_id self)])))"
proof -
  let ?T = "if truthy (overwrite_timestamp self)
            then (case matches of [] \<Rightarrow> Inl IndexError
                  | m # ms \<Rightarrow> Inr (dict_get m ''@timestamp'' PNone))
            else Inr (PStr (strftime_now env))"
  let ?title = "if str_contains ''{0['' (str_of env (create_title env matches))
            then format_string_with_match env (create_title env matches) matches
            else Inr (create_title env matches)"
  obtain ts where ts: "?T = Inr ts"
    using A by (cases ?T) (simp_all add: make_alert_def)
  obtain fd where fd: "format_string_with_match env (description self) matches = Inr fd"
    using A ts by (cases "format_string_with_match env (description self) matches")
      (simp_all add: make_alert_def)
  obtain fnote where fnote: "format_string_with_match env (alert_note self) matches = Inr fnote"
    using A ts fd by (cases "format_string_with_match env (alert_note self) matches")
      (simp_all add: make_alert_def)
  obtain ftags where ftags: "format_string_with_match env (alert_tags self) matches = Inr ftags"
    using A ts fd fnote by (cases "format_string_with_match env (alert_tags self) matches")
      (simp_all add: make_alert_def)
  obtain title where title: "?title = Inr title"
    using A ts fd fnote ftags by (cases ?title) (simp_all add: make_alert_def Let_def)
  let ?base = "[(''alert_title'', title),
           (''alert_description'', fd),
           (''alert_source'', alert_source self),
           (''alert_severity_id'', alert_severity_id self),
           (''alert_status_id'', alert_status_id self),
           (''alert_source_event_time'', ts),
           (''alert_note'', fnote),
           (''alert_tags'', ftags),
           (''alert_customer_id'', customer_id self)]"
  have "\<exists>iv cv. payload =
      (if truthy (alert_context self) then dict_update ''alert_context'' cv else id)
       ((if truthy (iocs self) then dict_update ''alert_iocs'' iv else id)
        ((if truthy (alert_source_link self)
          then dict_update ''alert_source_link'' (alert_source_link self) else id)
         ((if \<not> truthy (description self)
           then dict_update ''alert_description'' (create_alert_body env matches) else id)
          ?base)))"
  proof (cases "truthy (iocs self)")
    case True
    note io = True
    from A ts fd fnote ftags title io obtain rs where
      rs: "make_iocs_records env self matches = Inr rs"
      by (cases "make_iocs_records env self matches") (simp_all add: make_alert_def Let_def)
    show ?thesis
    proof (cases "truthy (alert_context self)")
      case True
      from A ts fd fnote ftags title io rs True obtain c where
        c: "make_alert_context_records env self matches = Inr c"
        by (cases "make_alert_context_records env self matches") (simp_all add: make_alert_def Let_def)
      from A ts fd fnote ftags title io rs True c show ?thesis
        by (intro exI [of _ "PList (map PDict rs)"] exI [of _ "PDict c"])
          (auto simp: make_alert_def Let_def)
    next
      case False
      from A ts fd fnote ftags title io rs False show ?thesis
        by (intro exI [of _ "PList (map PDict rs)"] exI [of _ PNone])
          (auto simp: make_alert_def Let_def)
    qed
  next
    case False
    note io = False
    show ?thesis
    proof (cases "truthy (alert_context self)")
      case True
      from A ts fd fnote ftags title io True obtain c where
        c: "make_alert_context_records env self matches = Inr c"
        by (cases "make_alert_context_records env self matches") (simp_all add: make_alert_def Let_def)
      from A ts fd fnote ftags title io True c show ?thesis
        by (intro exI [of _ PNone] exI [of _ "PDict c"])
          (auto simp: make_alert_def Let_def)
    next
      case False
      from A ts fd fnote ftags title io False show ?thesis
        by (intro exI [of _ PNone])
          (auto simp: make_alert_def Let_def)
    qed
  qed
  with that [OF fd fnote ftags] show thesis by blast
qed


lemma example_make_alert:
  "make_alert (example_env srv) (init (example_env srv) example_rule) [ioc_match] =
    ([LogInfo ''IRIS Alert Tags: None''],
     Inr [(''alert_title'', PStr ''Rule fired''),
       (''alert_description'', PStr ''Rule fired: 1 match''),
       (''alert_source'', PStr ''ElastAlert2''),
       (''alert_severity_id'', PInt 1), (''alert_status_id'', PInt 2),
       (''alert_source_event_time'', PStr ''2024-05-01T12:00:00''),
       (''alert_note'', PNone), (''alert_tags'', PNone),
       (''alert_customer_id'', PInt 1)])"
  by (simp add: make_alert_def init_def example_env_def example_rule_def dict_get_def
      format_string_with_match_def py_str_def dict_update_def Let_def)

lemma example_make_alert_described:
  "make_alert (example_env srv) (init (example_env srv) described_rule) [ioc_match] =
    ([LogInfo ''IRIS Alert Tags: None''],
     Inr [(''alert_title'', PStr ''Rule fired''),
       (''alert_description'', PStr ''Source 10.0.0.7''),
       (''alert_source'', PStr ''ElastAlert2''),
       (''alert_severity_id'', PInt 1), (''alert_status_id'', PInt 2),
       (''alert_source_event_time'', PStr ''2024-05-01T12:00:00''),
       (''alert_note'', PStr ''check <MISSING: host>''), (''alert_tags'', PNone),
       (''alert_customer_id'', PInt 1),
       (''alert_source_link'', PStr ''https://siem.example.org'')])"
  by (simp add: make_alert_def init_def example_env_def example_rule_def described_rule_def
      dict_get_def format_string_with_match_def py_str_def dict_update_def Let_def
      match_token_def replace_field_def dotted_lookup_def ioc_match_def)

section \<open>Lemmas on the orchestrator\<close>

lemma posts_append: "posts (a @ b) = posts a @ posts b"
  by (induction a rule: posts.induct) simp_all

lemma posts_sum_case:
  "(\<And>y. posts (fst (g y)) = []) \<Longrightarrow> posts l = [] \<Longrightarrow>
   posts (fst (case x of Inl e \<Rightarrow> (l, f e) | Inr y \<Rightarrow> g y)) = []"
  by (cases x) simp_all

lemma make_alert_posts: "posts (fst (make_alert env self matches)) = []"
  unfolding make_alert_def Let_def
  by (intro posts_sum_case) simp_all

lemma attach_iocs_urls:
  "\<forall>r\<in>set (posts (fst (attach_iocs env self verify case_id hist rs))).
      req_url r = url self @ ''/case/ioc/add''"
proof (induction rs arbitrary: hist)
  case Nil
  show ?case by simp
next
  case (Cons ioc rest)
  show ?case
    using Cons.IH [of "hist @ [ioc_request self verify case_id ioc]"]
    by (auto simp: Let_def ioc_request_def split: sum.split exc.split prod.split)
qed

lemma attach_iocs_urls_dest:
  "attach_iocs env self verify case_id hist rs = (evs, res) \<Longrightarrow> r \<in> set (posts evs)
   \<Longrightarrow> req_url r = url self @ ''/case/ioc/add''"
  using attach_iocs_urls [of env self verify case_id hist rs] by simp

lemma alert_branch_urls:
  "\<forall>r\<in>set (posts (fst (alert_branch env self verify matches))).
      req_url r = url self @ ''/alerts/add''"
proof (cases "make_alert env self matches")
  case (Pair evs res)
  from make_alert_posts [of env self matches] Pair have p: "posts evs = []" by simp
  show ?thesis
    using Pair p
    by (cases res) (auto simp: alert_branch_def Let_def posts_append split: sum.split exc.split)
qed

lemma case_branch_urls:
  "\<forall>r\<in>set (posts (fst (case_branch env self verify matches))).
      req_url r = url self @ ''/manage/cases/add'' \<or> req_url r = url self @ ''/case/ioc/add''"
proof (cases "make_case env self matches")
  case (Inl e)
  then show ?thesis by (simp add: case_branch_def)
next
  case (Inr p)
  obtain case_data rs where p: "p = (case_data, rs)" by (cases p)
  let ?req = "\<lparr> req_url = url self @ ''/manage/cases/add'', req_headers = headers self,
                 req_json = PDict case_data, req_verify = verify \<rparr>"
  show ?thesis
    using Inr p
    by (auto simp: case_branch_def Let_def posts_append split: sum.split exc.split prod.split
        dest: attach_iocs_urls_dest)
qed

lemma alert_in_alert_mode:
  assumes "type self = PStr s" and "str_contains ''alert'' s"
    and "verify = (if truthy (ca_cert self) then ca_cert self
                   else PBool (\<not> truthy (ignore_ssl_errors self)))"
    and "warn = (if truthy (ignore_ssl_errors self) then [DisableWarnings] else [])"
  shows "alert env self matches =
              (warn @ fst (alert_branch env self verify matches),
               snd (alert_branch env self verify matches))"
  using assms by (simp add: alert_def py_in_def Let_def split: prod.split)

lemma alert_in_case_mode:
  assumes "type self = PStr s" and "\<not> str_contains ''alert'' s" and "str_contains ''case'' s"
    and "verify = (if truthy (ca_cert self) then ca_cert self
                   else PBool (\<not> truthy (ignore_ssl_errors self)))"
    and "warn = (if truthy (ignore_ssl_errors self) then [DisableWarnings] else [])"
  shows "alert env self matches =
              (warn @ fst (case_branch env self verify matches),
               snd (case_branch env self verify matches))"
  using assms by (simp add: alert_def py_in_def Let_def split: prod.split)

lemma alert_in_no_mode:
  assumes "type self = PStr s" and "\<not> str_contains ''alert'' s" and "\<not> str_contains ''case'' s"
    and "warn = (if truthy (ignore_ssl_errors self) then [DisableWarnings] else [])"
  shows "alert env self matches = (warn, Inr ())"
  using assms by (simp add: alert_def py_in_def Let_def)

lemma attach_iocs_fail_fast:
  assumes "i < length rs"
    and "\<forall>k<i. \<exists>resp. requests_post env (hist @ map (ioc_request self verify cid) (take k rs))
                      (ioc_request self verify cid (rs ! k)) = Inr resp \<and> status_code resp = 200"
    and "requests_post env (hist @ map (ioc_request self verify cid) (take i rs))
            (ioc_request self verify cid (rs ! i)) = Inr bad"
    and "status_code bad \<noteq> 200"
  shows "posts (fst (attach_iocs env self verify cid hist rs))
           = map (ioc_request self verify cid) (take (Suc i) rs)
       \<and> snd (attach_iocs env self verify cid hist rs)
           = Inl (EAException (''Unable to add a new IOC to the case '' @ str_of env cid))"
  using assms
proof (induction rs arbitrary: hist i)
  case Nil
  then show ?case by simp
next
  case (Cons ioc rest)
  let ?req = "ioc_request self verify cid ioc"
  show ?case
  proof (cases i)
    case 0
    with Cons.prems(3,4) show ?thesis by (simp add: Let_def)
  next
    case (Suc j)
    from Cons.prems(2) Suc obtain resp where
      r0: "requests_post env hist ?req = Inr resp" and s0: "status_code resp = 200"
      by fastforce
    from Cons.prems(1) Suc have j: "j < length rest" by simp
    have ok: "\<forall>k<j. \<exists>resp. requests_post env ((hist @ [?req]) @ map (ioc_request self verify cid) (take k rest))
                      (ioc_request self verify cid (rest ! k)) = Inr resp \<and> status_code resp = 200"
    proof (intro allI impI)
      fix k assume "k < j"
      then have "Suc k < i" using Suc by simp
      with Cons.prems(2) show "\<exists>resp. requests_post env ((hist @ [?req]) @ map (ioc_request self verify cid) (take k rest))
                      (ioc_request self verify cid (rest ! k)) = Inr resp \<and> status_code resp = 200"
        by fastforce
    qed
    from Cons.prems(3) Suc
    have bad: "requests_post env ((hist @ [?req]) @ map (ioc_request self verify cid) (take j rest))
            (ioc_request self verify cid (rest ! j)) = Inr bad" by simp
    from Cons.IH [OF j ok bad Cons.prems(4)] r0 s0 Suc
    show ?thesis by (auto simp: Let_def split: prod.split)
  qed
qed

lemma case_branch_created:
  assumes "make_case env self matches = Inr (case_data, rs)"
    and "creq = \<lparr> req_url = url self @ ''/manage/cases/add'', req_headers = headers self,
                  req_json = PDict case_data, req_verify = verify \<rparr>"
    and "requests_post env [] creq = Inr cresp" and "status_code cresp = 200"
    and "json cresp = Inr body" and "py_get body ''data'' (PStr []) = Inr data"
    and "py_get data ''case_id'' PNone = Inr case_id"
  shows "posts (fst (case_branch env self verify matches))
           = creq # posts (fst (attach_iocs env self verify case_id [creq] rs))
       \<and> snd (case_branch env self verify matches)
           = snd (attach_iocs env self verify case_id [creq] rs)"
proof (cases "attach_iocs env self verify case_id [creq] rs")
  case (Pair evs res)
  with assms show ?thesis
    by (cases res) (simp_all add: case_branch_def Let_def posts_append)
qed

text \<open>The concrete runs.\<close>

lemma case_self:
  "type (init (example_env srv) case_rule) = PStr ''case''"
  "url (init (example_env srv) case_rule) = ''https://iris.example.org''"
  "headers (init (example_env srv) case_rule) =
     [(''Content-Type'', PStr ''application/json''), (''Authorization'', PStr ''Bearer token'')]"
  "ca_cert (init (example_env srv) case_rule) = PNone"
  "ignore_ssl_errors (init (example_env srv) case_rule) = PBool False"
  by (simp_all add: init_def case_rule_def ioc_rule_def example_rule_def example_env_def
      dict_get_def py_str_def)

lemma case_make_case:
  "make_case (example_env srv) (init (example_env srv) case_rule) [full_match] =
     Inr ([(''case_soc_id'', PStr ''SOC_3f2a9c''),
           (''case_customer'', PInt 1),
           (''case_name'', PStr ''ssh brute force''),
           (''case_description'', PNone)],
          [[(''ioc_type_id'', PInt 76), (''ioc_value'', PStr ''10.0.0.7'')],
           [(''ioc_type_id'', PInt 20), (''ioc_value'', PStr ''web01'')],
           [(''ioc_type_id'', PInt 90), (''ioc_value'', PStr [])]])"
  by (simp add: make_case_def make_iocs_records_def init_def case_rule_def ioc_rule_def
      example_rule_def example_env_def dict_get_def dict_update_def dotted_lookup_def
      full_match_def ioc_match_def Let_def)

lemma str_7: "int_to_str 7 = ''7''"
  by code_simp

lemma example_requests_post: "requests_post (example_env srv) = srv"
  by (simp add: example_env_def)

lemma example_str_of_int: "str_of (example_env srv) (PInt i) = int_to_str i"
  by (simp add: py_str_def)

lemma mode_self:
  "type (init (example_env srv) example_rule) = PStr ''alert''"
  "type (init (example_env srv) other_rule) = PStr ''follow-up''"
  "type (init (example_env srv) shouting_rule) = PStr ''ALERT''"
  "ca_cert (init (example_env srv) example_rule) = PNone"
  "ca_cert (init (example_env srv) other_rule) = PNone"
  "ca_cert (init (example_env srv) shouting_rule) = PNone"
  "ignore_ssl_errors (init (example_env srv) example_rule) = PBool False"
  "ignore_ssl_errors (init (example_env srv) other_rule) = PBool False"
  "ignore_ssl_errors (init (example_env srv) shouting_rule) = PBool False"
  by (simp_all add: init_def other_rule_def shouting_rule_def example_rule_def dict_get_def)

lemma shouting_make_alert:
  "make_alert (example_env srv) (init (example_env srv) shouting_rule) [ioc_match] =
    ([LogInfo ''IRIS Alert Tags: None''],
     Inr [(''alert_title'', PStr ''Rule fired''),
       (''alert_description'', PStr ''Rule fired: 1 match''),
       (''alert_source'', PStr ''ElastAlert2''),
       (''alert_severity_id'', PInt 1), (''alert_status_id'', PInt 2),
       (''alert_source_event_time'', PStr ''2024-05-01T12:00:00''),
       (''alert_note'', PNone), (''alert_tags'', PNone),
       (''alert_customer_id'', PInt 1)])"
  by (simp add: make_alert_def init_def example_env_def example_rule_def shouting_rule_def
      dict_get_def format_string_with_match_def py_str_def dict_update_def Let_def)

section \<open>The payload is built\<close>

lemma format_returns_value:
  "\<exists>v. format_string_with_match env template (m # ms) = Inr v"
proof (cases "template = PNone")
  case True
  then show ?thesis by (simp add: format_string_with_match_def)
next
  case False
  from format_returns_string [OF False, of env m ms] show ?thesis by blast
qed

lemma make_alert_returns:
  assumes io: "truthy (iocs self) \<longrightarrow> (\<exists>rs. make_iocs_records env self (m # ms) = Inr rs)"
    and cx: "truthy (alert_context self) \<longrightarrow>
              (\<exists>c. make_alert_context_records env self (m # ms) = Inr c)"
  shows "\<exists>evs payload. make_alert env self (m # ms) = (evs, Inr payload)"
proof -
  let ?M = "m # ms"
  obtain fd where fd: "format_string_with_match env (description self) ?M = Inr fd"
    using format_returns_value by blast
  obtain fnote where fnote: "format_string_with_match env (alert_note self) ?M = Inr fnote"
    using format_returns_value by blast
  obtain ftags where ftags: "format_string_with_match env (alert_tags self) ?M = Inr ftags"
    using format_returns_value by blast
  obtain ft where ft: "format_string_with_match env (create_title env ?M) ?M = Inr ft"
    using format_returns_value by blast
  show ?thesis
  proof (cases "truthy (iocs self)")
    case True
    note t1 = True
    with io obtain rs where rs: "make_iocs_records env self ?M = Inr rs" by blast
    show ?thesis
    proof (cases "truthy (alert_context self)")
      case True
      with cx obtain c where c: "make_alert_context_records env self ?M = Inr c" by blast
      from fd fnote ftags ft t1 rs True c show ?thesis
        by (simp add: make_alert_def Let_def)
    next
      case False
      from fd fnote ftags ft t1 rs False show ?thesis
        by (simp add: make_alert_def Let_def)
    qed
  next
    case False
    note t1 = False
    show ?thesis
    proof (cases "truthy (alert_context self)")
      case True
      with cx obtain c where c: "make_alert_context_records env self ?M = Inr c" by blast
      from fd fnote ftags ft t1 True c show ?thesis
        by (simp add: make_alert_def Let_def)
    next
      case False
      from fd fnote ftags ft t1 False show ?thesis
        by (simp add: make_alert_def Let_def)
    qed
  qed
qed

lemma example_make_alert_empty_text:
  "make_alert (example_env srv) (init (example_env srv) empty_text_rule) [ioc_match] =
    ([LogInfo ''IRIS Alert Tags: None''],
     Inr [(''alert_title'', PStr ''Rule fired''),
       (''alert_description'', PStr []),
       (''alert_source'', PStr ''ElastAlert2''),
       (''alert_severity_id'', PInt 1), (''alert_status_id'', PInt 2),
       (''alert_source_event_time'', PStr ''2024-05-01T12:00:00''),
       (''alert_note'', PNone), (''alert_tags'', PNone),
       (''alert_customer_id'', PInt 1)])"
  by (simp add: make_alert_def init_def example_env_def example_rule_def empty_text_rule_def
      dict_get_def format_string_with_match_def py_str_def dict_update_def Let_def
      match_token_def replace_field_def dotted_lookup_def ioc_match_def)

lemma example_unset_options:
  "\<not> truthy (description (init (example_env srv) example_rule))"
  "\<not> truthy (iocs (init (example_env srv) example_rule))"
  "\<not> truthy (alert_context (init (example_env srv) example_rule))"
  "truthy (description (init (example_env srv) described_rule))"
  "\<not> truthy (iocs (init (example_env srv) described_rule))"
  "\<not> truthy (alert_context (init (example_env srv) described_rule))"
  "truthy (description (init (example_env srv) empty_text_rule))"
  by (simp_all add: init_def example_rule_def described_rule_def empty_text_rule_def dict_get_def)

lemma example_format_description:
  "format_string_with_match (example_env srv)
        (description (init (example_env srv) described_rule)) [ioc_match]
       = Inr (PStr ''Source 10.0.0.7'')"
  "format_string_with_match (example_env srv)
        (description (init (example_env srv) empty_text_rule)) [ioc_match]
       = Inr (PStr [])"
  by (simp_all add: init_def example_env_def example_rule_def described_rule_def
      empty_text_rule_def dict_get_def format_string_with_match_def py_str_def
      match_token_def replace_field_def dotted_lookup_def ioc_match_def)

section \<open>The claims\<close>

text \<open>
  Claim C1, amended. In case mode, after the case was created (status 200, and a case id
  read from the body), the IOC records are posted one by one in their order; when the
  calls for the records before the \<open>i\<close>-th returned 200 and the call for the \<open>i\<close>-th
  returns another status, the HTTP calls of the invocation are the case creation and the
  IOC calls for the records \<open>0\<close> to \<open>i\<close>, no call is issued for a later record, and the
  invocation fails with an \<^verbatim>\<open>EAException\<close> whose message names the case id. The message
  does not name the index \<open>i\<close>: the third theorem below is a run that fails at the record
  of index 1 with a message in which no 1 occurs.
\<close>

theorem ioc_attach_fail_fast:
  assumes "type self = PStr s" and "\<not> str_contains ''alert'' s" and "str_contains ''case'' s"
    and "verify = (if truthy (ca_cert self) then ca_cert self
                   else PBool (\<not> truthy (ignore_ssl_errors self)))"
    and "make_case env self matches = Inr (case_data, rs)"
    and "creq = \<lparr> req_url = url self @ ''/manage/cases/add'', req_headers = headers self,
                  req_json = PDict case_data, req_verify = verify \<rparr>"
    and "requests_post env [] creq = Inr cresp" and "status_code cresp = 200"
    and "json cresp = Inr body" and "py_get body ''data'' (PStr []) = Inr data"
    and "py_get data ''case_id'' PNone = Inr case_id"
    and "i < length rs"
    and "\<forall>k<i. \<exists>resp. requests_post env (creq # map (ioc_request self verify case_id) (take k rs))
                      (ioc_request self verify case_id (rs ! k)) = Inr resp
                   \<and> status_code resp = 200"
    and "requests_post env (creq # map (ioc_request self verify case_id) (take i rs))
            (ioc_request self verify case_id (rs ! i)) = Inr bad"
    and "status_code bad \<noteq> 200"
  shows "posts (fst (alert env self matches))
           = creq # map (ioc_request self verify case_id) (take (Suc i) rs)
       \<and> snd (alert env self matches)
           = Inl (EAException (''Unable to add a new IOC to the case '' @ str_of env case_id))"
proof -
  note e = alert_in_case_mode [OF assms(1-4) refl, of env matches]
  note cb = case_branch_created [OF assms(5-11)]
  have ok: "\<forall>k<i. \<exists>resp. requests_post env ([creq] @ map (ioc_request self verify case_id) (take k rs))
                      (ioc_request self verify case_id (rs ! k)) = Inr resp
                   \<and> status_code resp = 200"
    using assms(13) by simp
  have bad: "requests_post env ([creq] @ map (ioc_request self verify case_id) (take i rs))
            (ioc_request self verify case_id (rs ! i)) = Inr bad"
    using assms(14) by simp
  note ff = attach_iocs_fail_fast [OF assms(12) ok bad assms(15)]
  from cb ff show ?thesis
    unfolding e by (simp add: posts_append)
qed

theorem ioc_attach_fail_fast_witness:
  "map req_url (posts (fst (alert (example_env fails_second)
        (init (example_env fails_second) case_rule) [full_match])))
     = [''https://iris.example.org/manage/cases/add'',
        ''https://iris.example.org/case/ioc/add'',
        ''https://iris.example.org/case/ioc/add'']
   \<and> snd (alert (example_env fails_second)
        (init (example_env fails_second) case_rule) [full_match])
     = Inl (EAException ''Unable to add a new IOC to the case 7'')"
proof -
  let ?E = "example_env fails_second"
  let ?S = "init ?E case_rule"
  let ?cd = "[(''case_soc_id'', PStr ''SOC_3f2a9c''),
           (''case_customer'', PInt 1),
           (''case_name'', PStr ''ssh brute force''),
           (''case_description'', PNone)]"
  let ?rs = "[[(''ioc_type_id'', PInt 76), (''ioc_value'', PStr ''10.0.0.7'')],
           [(''ioc_type_id'', PInt 20), (''ioc_value'', PStr ''web01'')],
           [(''ioc_type_id'', PInt 90), (''ioc_value'', PStr [])]]"
  let ?creq = "\<lparr> req_url = url ?S @ ''/manage/cases/add'', req_headers = headers ?S,
                  req_json = PDict ?cd, req_verify = PBool True \<rparr>"
  let ?ok = "\<lparr> status_code = 200, json = Inr (PDict [(''data'', PDict [(''case_id'', PInt 7)])]) \<rparr>"
  let ?bad = "\<lparr> status_code = 404, json = Inr PNone \<rparr>"
  have h1: "type ?S = PStr ''case''" by (rule case_self)
  have h2: "\<not> str_contains ''alert'' ''case''" by simp
  have h3: "str_contains ''case'' ''case''" by simp
  have h4: "PBool True = (if truthy (ca_cert ?S) then ca_cert ?S
                   else PBool (\<not> truthy (ignore_ssl_errors ?S)))"
    by (simp add: case_self)
  have h5: "make_case ?E ?S [full_match] = Inr (?cd, ?rs)" by (rule case_make_case)
  have h6: "?creq = \<lparr> req_url = url ?S @ ''/manage/cases/add'', req_headers = headers ?S,
                  req_json = PDict ?cd, req_verify = PBool True \<rparr>" by simp
  have h7: "requests_post ?E [] ?creq = Inr ?ok"
    by (simp add: example_env_def fails_second_def)
  have h8: "status_code ?ok = 200" by simp
  have h9: "json ?ok = Inr (PDict [(''data'', PDict [(''case_id'', PInt 7)])])" by simp
  have h10: "py_get (PDict [(''data'', PDict [(''case_id'', PInt 7)])]) ''data'' (PStr [])
              = Inr (PDict [(''case_id'', PInt 7)])"
    by (simp add: py_get_def dict_get_def)
  have h11: "py_get (PDict [(''case_id'', PInt 7)]) ''case_id'' PNone = Inr (PInt 7)"
    by (simp add: py_get_def dict_get_def)
  have h12: "(1::nat) < length ?rs" by simp
  have h13: "\<forall>k<(1::nat). \<exists>resp. requests_post ?E
                 (?creq # map (ioc_request ?S (PBool True) (PInt 7)) (take k ?rs))
                 (ioc_request ?S (PBool True) (PInt 7) (?rs ! k)) = Inr resp
               \<and> status_code resp = 200"
    by (simp add: example_env_def fails_second_def)
  have h14: "requests_post ?E (?creq # map (ioc_request ?S (PBool True) (PInt 7)) (take 1 ?rs))
                 (ioc_request ?S (PBool True) (PInt 7) (?rs ! 1)) = Inr ?bad"
    by (simp add: example_env_def fails_second_def)
  have h15: "status_code ?bad \<noteq> 200" by simp
  from ioc_attach_fail_fast [OF h1 h2 h3 h4 h5 h6 h7 h8 h9 h10 h11 h12 h13 h14 h15]
  show ?thesis
    by (simp add: ioc_request_def case_self py_str_def str_7)
qed

theorem ioc_failure_message_without_index:
  "alert (example_env fails_second) (init (example_env fails_second) case_rule) [full_match]
     = ([Post \<lparr> req_url = ''https://iris.example.org/manage/cases/add'',
                req_headers = [(''Content-Type'', PStr ''application/json''),
                               (''Authorization'', PStr ''Bearer token'')],
                req_json = PDict [(''case_soc_id'', PStr ''SOC_3f2a9c''),
                                  (''case_customer'', PInt 1),
                                  (''case_name'', PStr ''ssh brute force''),
                                  (''case_description'', PNone)],
                req_verify = PBool True \<rparr>
           (Inr \<lparr> status_code = 200,
                  json = Inr (PDict [(''data'', PDict [(''case_id'', PInt 7)])]) \<rparr>),
         Post \<lparr> req_url = ''https://iris.example.org/case/ioc/add'',
                req_headers = [(''Content-Type'', PStr ''application/json''),
                               (''Authorization'', PStr ''Bearer token'')],
                req_json = PDict [(''ioc_type_id'', PInt 76), (''ioc_value'', PStr ''10.0.0.7''),
                                  (''cid'', PInt 7)],
                req_verify = PBool True \<rparr>
           (Inr \<lparr> status_code = 200,
                  json = Inr (PDict [(''data'', PDict [(''case_id'', PInt 7)])]) \<rparr>),
         LogInfo ''IOCs successfully added to the case'',
         Post \<lparr> req_url = ''https://iris.example.org/case/ioc/add'',
                req_headers = [(''Content-Type'', PStr ''application/json''),
                               (''Authorization'', PStr ''Bearer token'')],
                req_json = PDict [(''ioc_type_id'', PInt 20), (''ioc_value'', PStr ''web01''),
                                  (''cid'', PInt 7)],
                req_verify = PBool True \<rparr>
           (Inr \<lparr> status_code = 404, json = Inr PNone \<rparr>)],
        Inl (EAException ''Unable to add a new IOC to the case 7''))
   \<and> \<not> str_contains (int_to_str 1) ''Unable to add a new IOC to the case 7''"
proof -
  have one: "int_to_str 1 = ''1''" by code_simp
  show ?thesis
    by (simp add: alert_def py_in_def case_branch_def case_make_case case_self Let_def
        example_requests_post fails_second_def ioc_request_def dict_update_def py_get_def
        dict_get_def example_str_of_int str_7 one)
qed

text \<open>
  Claim C2, amended. With a mode string \<open>s\<close>, the test is the containment of Python's
  \<^verbatim>\<open>in\<close>, which distinguishes upper and lower case. When \<open>s\<close> contains \<^verbatim>\<open>alert\<close>, the
  invocation is the alert branch, and every HTTP call goes to the alert endpoint, also
  when \<open>s\<close> contains \<^verbatim>\<open>case\<close> as well. When \<open>s\<close> contains \<^verbatim>\<open>case\<close> and not \<^verbatim>\<open>alert\<close>, the
  invocation is the case branch, and no HTTP call goes to the alert endpoint. When \<open>s\<close>
  contains neither, no HTTP call is issued and the invocation returns normally. The
  third theorem below is a run with the mode \<^verbatim>\<open>ALERT\<close>, in which nothing is submitted.
\<close>

theorem alert_dispatch:
  assumes "type self = PStr s"
    and "verify = (if truthy (ca_cert self) then ca_cert self
                   else PBool (\<not> truthy (ignore_ssl_errors self)))"
    and "warn = (if truthy (ignore_ssl_errors self) then [DisableWarnings] else [])"
  shows "(str_contains ''alert'' s \<longrightarrow>
            alert env self matches =
              (warn @ fst (alert_branch env self verify matches),
               snd (alert_branch env self verify matches))
          \<and> (\<forall>r\<in>set (posts (fst (alert env self matches))).
                req_url r = url self @ ''/alerts/add''))
       \<and> (\<not> str_contains ''alert'' s \<and> str_contains ''case'' s \<longrightarrow>
            alert env self matches =
              (warn @ fst (case_branch env self verify matches),
               snd (case_branch env self verify matches))
          \<and> (\<forall>r\<in>set (posts (fst (alert env self matches))).
                req_url r \<noteq> url self @ ''/alerts/add''))
       \<and> (\<not> str_contains ''alert'' s \<and> \<not> str_contains ''case'' s \<longrightarrow>
            alert env self matches = (warn, Inr ())
          \<and> posts (fst (alert env self matches)) = [])"
proof -
  have pw: "posts warn = []" using assms(3) by simp
  have c1: "alert env self matches =
              (warn @ fst (alert_branch env self verify matches),
               snd (alert_branch env self verify matches))
          \<and> (\<forall>r\<in>set (posts (fst (alert env self matches))).
                req_url r = url self @ ''/alerts/add'')"
    if a: "str_contains ''alert'' s"
  proof -
    note e = alert_in_alert_mode [OF assms(1) a assms(2,3), of env matches]
    from alert_branch_urls [of env self verify matches] pw
    have "\<forall>r\<in>set (posts (fst (alert env self matches))). req_url r = url self @ ''/alerts/add''"
      unfolding e by (simp add: posts_append)
    with e show ?thesis by simp
  qed
  have c2: "alert env self matches =
              (warn @ fst (case_branch env self verify matches),
               snd (case_branch env self verify matches))
          \<and> (\<forall>r\<in>set (posts (fst (alert env self matches))).
                req_url r \<noteq> url self @ ''/alerts/add'')"
    if a: "\<not> str_contains ''alert'' s" and b: "str_contains ''case'' s"
  proof -
    note e = alert_in_case_mode [OF assms(1) a b assms(2,3), of env matches]
    from case_branch_urls [of env self verify matches] pw
    have "\<forall>r\<in>set (posts (fst (alert env self matches))). req_url r \<noteq> url self @ ''/alerts/add''"
      unfolding e by (auto simp: posts_append)
    with e show ?thesis by simp
  qed
  have c3: "alert env self matches = (warn, Inr ()) \<and> posts (fst (alert env self matches)) = []"
    if a: "\<not> str_contains ''alert'' s" and b: "\<not> str_contains ''case'' s"
  proof -
    note e = alert_in_no_mode [OF assms(1) a b assms(3), of env matches]
    from pw e show ?thesis by simp
  qed
  from c1 c2 c3 show ?thesis by blast
qed

theorem alert_dispatch_witness:
  "str_contains ''alert'' ''alert''
   \<and> alert (example_env accepting) (init (example_env accepting) example_rule) [ioc_match]
       = (fst (alert_branch (example_env accepting) (init (example_env accepting) example_rule)
                 (PBool True) [ioc_match]),
          snd (alert_branch (example_env accepting) (init (example_env accepting) example_rule)
                 (PBool True) [ioc_match]))
   \<and> \<not> str_contains ''alert'' ''case'' \<and> str_contains ''case'' ''case''
   \<and> alert (example_env accepting) (init (example_env accepting) case_rule) [full_match]
       = (fst (case_branch (example_env accepting) (init (example_env accepting) case_rule)
                 (PBool True) [full_match]),
          snd (case_branch (example_env accepting) (init (example_env accepting) case_rule)
                 (PBool True) [full_match]))
   \<and> \<not> str_contains ''alert'' ''follow-up'' \<and> \<not> str_contains ''case'' ''follow-up''
   \<and> alert (example_env accepting) (init (example_env accepting) other_rule) [ioc_match]
       = ([], Inr ())
   \<and> posts (fst (alert (example_env accepting) (init (example_env accepting) other_rule)
                 [ioc_match])) = []"
proof -
  let ?E = "example_env accepting"
  have a: "str_contains ''alert'' ''alert''"
    and c: "\<not> str_contains ''alert'' ''case''" "str_contains ''case'' ''case''"
    and n: "\<not> str_contains ''alert'' ''follow-up''" "\<not> str_contains ''case'' ''follow-up''"
    by simp_all
  have v1: "PBool True = (if truthy (ca_cert (init ?E example_rule)) then ca_cert (init ?E example_rule)
                   else PBool (\<not> truthy (ignore_ssl_errors (init ?E example_rule))))"
    and w1: "[] = (if truthy (ignore_ssl_errors (init ?E example_rule)) then [DisableWarnings] else [])"
    and v2: "PBool True = (if truthy (ca_cert (init ?E case_rule)) then ca_cert (init ?E case_rule)
                   else PBool (\<not> truthy (ignore_ssl_errors (init ?E case_rule))))"
    and w2: "[] = (if truthy (ignore_ssl_errors (init ?E case_rule)) then [DisableWarnings] else [])"
    and v3: "PBool True = (if truthy (ca_cert (init ?E other_rule)) then ca_cert (init ?E other_rule)
                   else PBool (\<not> truthy (ignore_ssl_errors (init ?E other_rule))))"
    and w3: "[] = (if truthy (ignore_ssl_errors (init ?E other_rule)) then [DisableWarnings] else [])"
    by (simp_all add: mode_self case_self)
  from alert_dispatch [OF mode_self(1) v1 w1, of ?E "[ioc_match]"] a
    alert_dispatch [OF case_self(1) v2 w2, of ?E "[full_match]"] c
    alert_dispatch [OF mode_self(2) v3 w3, of ?E "[ioc_match]"] n
  show ?thesis by simp
qed

theorem upper_case_mode_is_ignored:
  "type (init (example_env accepting) shouting_rule) = PStr ''ALERT''
   \<and> contains_ci ''alert'' ''ALERT''
   \<and> alert (example_env accepting) (init (example_env accepting) shouting_rule) [ioc_match]
       = ([], Inr ())
   \<and> length (posts (fst (alert_branch (example_env accepting)
        (init (example_env accepting) shouting_rule) (PBool True) [ioc_match]))) = 1"
proof -
  have ci: "contains_ci ''alert'' ''ALERT''" by code_simp
  have run: "alert (example_env accepting) (init (example_env accepting) shouting_rule) [ioc_match]
       = ([], Inr ())"
    by (simp add: alert_def py_in_def mode_self Let_def)
  have br: "length (posts (fst (alert_branch (example_env accepting)
        (init (example_env accepting) shouting_rule) (PBool True) [ioc_match]))) = 1"
    by (simp add: alert_branch_def shouting_make_alert example_requests_post accepting_def Let_def)
  from ci run br show ?thesis by (simp add: mode_self)
qed

lemma example_format_pre: "format_string_with_match (example_env srv) (PStr ''Host '') ms = Inr (PStr ''Host '')"
  by (simp add: format_string_with_match_def py_str_def match_token_def)

lemma example_format_post: "format_string_with_match (example_env srv) (PStr '' seen'') ms = Inr (PStr '' seen'')"
  by (simp add: format_string_with_match_def py_str_def match_token_def)

text \<open>
  Claim C3. Formatting is total: for a template other than \<^verbatim>\<open>None\<close> and a non-empty list of
  matches, \<^verbatim>\<open>format_string_with_match\<close> returns a string and raises nothing. Moreover, where
  the text of the template is \<open>pre\<close>, then a token \<^verbatim>\<open>{0[f]}\<close>, then \<open>post\<close> (the token is one
  the scan reaches: no \<^verbatim>\<open>{0[\<close> of \<open>pre\<close> is left open), and the first match has no value at
  \<open>f\<close>, the result is the formatted \<open>pre\<close>, then the marker \<^verbatim>\<open><MISSING: f>\<close>, then the
  formatted \<open>post\<close>.
\<close>

theorem format_total_missing_marker:
  assumes "template \<noteq> PNone"
  shows "(\<exists>out. format_string_with_match env template (m # ms) = Inr (PStr out))
    \<and> (\<forall>pre f post.
          str_of env template = pre @ ''{0['' @ f @ '']}'' @ post \<and> no_open_token pre
          \<and> f \<noteq> [] \<and> CHR '']'' \<notin> set f \<and> lookup_es_key env m (PStr f) = PNone \<longrightarrow>
          (\<exists>a c. format_string_with_match env (PStr pre) (m # ms) = Inr (PStr a)
               \<and> format_string_with_match env (PStr post) (m # ms) = Inr (PStr c)
               \<and> format_string_with_match env template (m # ms)
                   = Inr (PStr (a @ ''<MISSING: '' @ f @ ''>'' @ c))))"
proof (intro conjI allI impI)
  show "\<exists>out. format_string_with_match env template (m # ms) = Inr (PStr out)"
    using assms by (rule format_returns_string)
next
  fix pre f post
  assume h: "str_of env template = pre @ ''{0['' @ f @ '']}'' @ post \<and> no_open_token pre
          \<and> f \<noteq> [] \<and> CHR '']'' \<notin> set f \<and> lookup_es_key env m (PStr f) = PNone"
  then have "replace_field env (m # ms) f = Inr (''<MISSING: '' @ f @ ''>'')"
    by (simp add: replace_field_def)
  from format_at_token [OF assms _ _ _ _ this, of pre post] h
  show "\<exists>a c. format_string_with_match env (PStr pre) (m # ms) = Inr (PStr a)
               \<and> format_string_with_match env (PStr post) (m # ms) = Inr (PStr c)
               \<and> format_string_with_match env template (m # ms)
                   = Inr (PStr (a @ ''<MISSING: '' @ f @ ''>'' @ c))"
    by simp
qed

theorem format_total_missing_marker_witness:
  "PStr ''Host {0[host]} seen'' \<noteq> PNone
   \<and> format_string_with_match (example_env offline)
        (PStr ''Host {0[host]} seen'') [[(''user'', PStr ''bob'')]]
       = Inr (PStr ''Host <MISSING: host> seen'')"
proof -
  let ?E = "example_env offline"
  let ?m = "[(''user'', PStr ''bob'')]"
  have ne: "PStr ''Host {0[host]} seen'' \<noteq> PNone" by simp
  have hyp: "str_of ?E (PStr ''Host {0[host]} seen'') = ''Host '' @ ''{0['' @ ''host'' @ '']}'' @ '' seen''
      \<and> no_open_token ''Host '' \<and> ''host'' \<noteq> [] \<and> CHR '']'' \<notin> set ''host''
      \<and> lookup_es_key ?E ?m (PStr ''host'') = PNone"
    by (simp add: py_str_def example_env_def dotted_lookup_def)
  from format_total_missing_marker [OF ne, of ?E ?m "[]"] hyp
  obtain a c where "format_string_with_match ?E (PStr ''Host '') [?m] = Inr (PStr a)"
    and "format_string_with_match ?E (PStr '' seen'') [?m] = Inr (PStr c)"
    and "format_string_with_match ?E (PStr ''Host {0[host]} seen'') [?m]
          = Inr (PStr (a @ ''<MISSING: '' @ ''host'' @ ''>'' @ c))"
    by blast
  then show ?thesis by (simp add: example_format_pre example_format_post)
qed

text \<open>
  Claim C4. The order of resolution is fixed: \<^verbatim>\<open>lookup_field\<close> returns the value found in
  the match when there is one; otherwise the value of the rule under the same name when
  the rule has that key; otherwise the default.
\<close>

theorem lookup_field_order:
  "(lookup_es_key env match (PStr f) \<noteq> PNone \<longrightarrow>
      lookup_field env self match (PStr f) d = Inr (lookup_es_key env match (PStr f)))
   \<and> (lookup_es_key env match (PStr f) = PNone \<longrightarrow>
        (\<forall>v. map_of (rule self) f = Some v \<longrightarrow> lookup_field env self match (PStr f) d = Inr v)
      \<and> (map_of (rule self) f = None \<longrightarrow> lookup_field env self match (PStr f) d = Inr d))"
  by (simp add: lookup_field_def rule_get_def dict_get_def Let_def)

theorem lookup_field_order_witness:
  "lookup_field (example_env offline) (init (example_env offline) example_rule)
      [(''severity'', PStr ''low'')] (PStr ''severity'') (PStr ''none'') = Inr (PStr ''low'')
   \<and> lookup_field (example_env offline) (init (example_env offline) example_rule)
      [(''user'', PStr ''bob'')] (PStr ''severity'') (PStr ''none'') = Inr (PStr ''high'')
   \<and> lookup_field (example_env offline) (init (example_env offline) example_rule)
      [(''user'', PStr ''bob'')] (PStr ''colour'') (PStr ''none'') = Inr (PStr ''none'')"
proof -
  let ?E = "example_env offline"
  let ?S = "init ?E example_rule"
  have l1: "lookup_es_key ?E [(''severity'', PStr ''low'')] (PStr ''severity'') = PStr ''low''"
    and l2: "lookup_es_key ?E [(''user'', PStr ''bob'')] (PStr ''severity'') = PNone"
    and l3: "lookup_es_key ?E [(''user'', PStr ''bob'')] (PStr ''colour'') = PNone"
    by (simp_all add: example_env_def dotted_lookup_def)
  have r2: "map_of (rule ?S) ''severity'' = Some (PStr ''high'')"
    and r3: "map_of (rule ?S) ''colour'' = None"
    by (simp_all add: init_def example_rule_def)
  from lookup_field_order [of ?E "[(''severity'', PStr ''low'')]" "''severity''" ?S "PStr ''none''"] l1
  have a: "lookup_field ?E ?S [(''severity'', PStr ''low'')] (PStr ''severity'') (PStr ''none'')
            = Inr (PStr ''low'')" by simp
  from lookup_field_order [of ?E "[(''user'', PStr ''bob'')]" "''severity''" ?S "PStr ''none''"] l2 r2
  have b: "lookup_field ?E ?S [(''user'', PStr ''bob'')] (PStr ''severity'') (PStr ''none'')
            = Inr (PStr ''high'')" by simp
  from lookup_field_order [of ?E "[(''user'', PStr ''bob'')]" "''colour''" ?S "PStr ''none''"] l3 r3
  have c: "lookup_field ?E ?S [(''user'', PStr ''bob'')] (PStr ''colour'') (PStr ''none'')
            = Inr (PStr ''none'')" by simp
  from a b c show ?thesis by simp
qed

lemma ioc_self: "iocs (init env ioc_rule) =
   PList (map PDict [[(''ioc_type_id'', PInt 76), (''ioc_value'', PStr ''src.ip'')],
                     [(''ioc_type_id'', PInt 20), (''ioc_value'', PStr ''host'')],
                     [(''ioc_type_id'', PInt 90), (''ioc_value'', PStr ''hash'')]])"
  by (simp add: init_def ioc_rule_def example_rule_def dict_get_def)

lemma ioc_lookups:
  "lookup_es_key (example_env srv) ioc_match (PStr ''src.ip'') = PStr ''10.0.0.7''"
  "lookup_es_key (example_env srv) ioc_match (PStr ''host'') = PNone"
  "lookup_es_key (example_env srv) ioc_match (PStr ''hash'') = PStr []"
  by (simp_all add: example_env_def dotted_lookup_def ioc_match_def)

text \<open>
  Claim C5, amended. For a configured list of IOC templates, each a dict with the key
  \<^verbatim>\<open>ioc_value\<close>, and a non-empty list of matches, \<^verbatim>\<open>make_iocs_records\<close> drops exactly the
  records whose \<^verbatim>\<open>ioc_value\<close> path has no value (\<^verbatim>\<open>None\<close>) in the first match; the others
  appear in the order of the templates, each a copy of its template with \<^verbatim>\<open>ioc_value\<close>
  replaced by the value found. A value that is empty but not \<^verbatim>\<open>None\<close>, such as the empty
  string, is kept: the second theorem below shows such a record in the result.
\<close>

theorem make_iocs_records_drops_none:
  assumes "iocs self = PList (map PDict templates)"
    and "\<forall>r\<in>set templates. ''ioc_value'' \<in> fst ` set r"
  shows "make_iocs_records env self (m # ms) =
     Inr (map (\<lambda>r. dict_update ''ioc_value'' (lookup_es_key env m (dict_get r ''ioc_value'' PNone)) r)
              (filter (\<lambda>r. lookup_es_key env m (dict_get r ''ioc_value'' PNone) \<noteq> PNone) templates))"
  using assms by (simp add: make_iocs_records_def iocs_loop_dicts)


theorem make_iocs_records_drops_none_witness:
  "make_iocs_records (example_env offline) (init (example_env offline) ioc_rule) [ioc_match] =
     Inr [[(''ioc_type_id'', PInt 76), (''ioc_value'', PStr ''10.0.0.7'')],
          [(''ioc_type_id'', PInt 90), (''ioc_value'', PStr [])]]"
proof -
  let ?ts = "[[(''ioc_type_id'', PInt 76), (''ioc_value'', PStr ''src.ip'')],
              [(''ioc_type_id'', PInt 20), (''ioc_value'', PStr ''host'')],
              [(''ioc_type_id'', PInt 90), (''ioc_value'', PStr ''hash'')]]"
  have keys: "\<forall>r\<in>set ?ts. ''ioc_value'' \<in> fst ` set r" by simp
  from make_iocs_records_drops_none [OF ioc_self keys, where env = "example_env offline"
      and m = ioc_match and ms = "[]"]
  show ?thesis by (simp add: ioc_lookups dict_get_def dict_update_def)
qed

theorem make_iocs_records_keeps_empty_value:
  "lookup_es_key (example_env offline) ioc_match (PStr ''hash'') = PStr []
   \<and> \<not> truthy (PStr [])
   \<and> make_iocs_records (example_env offline) (init (example_env offline) ioc_rule) [ioc_match] =
     Inr [[(''ioc_type_id'', PInt 76), (''ioc_value'', PStr ''10.0.0.7'')],
          [(''ioc_type_id'', PInt 90), (''ioc_value'', PStr [])]]"
  by (simp add: ioc_lookups ioc_self make_iocs_records_def dict_get_def dict_update_def)

text \<open>
  Claim C6, amended. In every payload built by \<^verbatim>\<open>make_alert\<close>, the keys
  \<^verbatim>\<open>alert_source_link\<close>, \<^verbatim>\<open>alert_iocs\<close> and \<^verbatim>\<open>alert_context\<close> are present exactly when their
  option is set to a non-empty value. The keys \<^verbatim>\<open>alert_note\<close> and \<^verbatim>\<open>alert_tags\<close> are always
  present and hold the formatted option, which is \<^verbatim>\<open>None\<close> when the option is unset. The
  third theorem below shows a payload with the key \<^verbatim>\<open>alert_note\<close> bound to \<^verbatim>\<open>None\<close>.
\<close>

theorem make_alert_optional_keys:
  assumes "make_alert env self matches = (evs, Inr payload)"
  shows "(''alert_source_link'' \<in> fst ` set payload \<longleftrightarrow> truthy (alert_source_link self))
       \<and> (''alert_iocs'' \<in> fst ` set payload \<longleftrightarrow> truthy (iocs self))
       \<and> (''alert_context'' \<in> fst ` set payload \<longleftrightarrow> truthy (alert_context self))
       \<and> (\<exists>n. format_string_with_match env (alert_note self) matches = Inr n
              \<and> map_of payload ''alert_note'' = Some n)
       \<and> (\<exists>t. format_string_with_match env (alert_tags self) matches = Inr t
              \<and> map_of payload ''alert_tags'' = Some t)
       \<and> (alert_note self = PNone \<longrightarrow> map_of payload ''alert_note'' = Some PNone)
       \<and> (alert_tags self = PNone \<longrightarrow> map_of payload ''alert_tags'' = Some PNone)"
proof -
  from assms obtain ts fd fnote ftags title iv cv where
    fn: "format_string_with_match env (alert_note self) matches = Inr fnote"
    and ft: "format_string_with_match env (alert_tags self) matches = Inr ftags"
    and p: "payload =
      (if truthy (alert_context self) then dict_update ''alert_context'' cv else id)
       ((if truthy (iocs self) then dict_update ''alert_iocs'' iv else id)
        ((if truthy (alert_source_link self)
          then dict_update ''alert_source_link'' (alert_source_link self) else id)
         ((if \<not> truthy (description self)
           then dict_update ''alert_description'' (create_alert_body env matches) else id)
          [(''alert_title'', title),
           (''alert_description'', fd),
           (''alert_source'', alert_source self),
           (''alert_severity_id'', alert_severity_id self),
           (''alert_status_id'', alert_status_id self),
           (''alert_source_event_time'', ts),
           (''alert_note'', fnote),
           (''alert_tags'', ftags),
           (''alert_customer_id'', customer_id self)])))"
    by (rule make_alert_shape)
  have k1: "''alert_source_link'' \<in> fst ` set payload \<longleftrightarrow> truthy (alert_source_link self)"
    unfolding p key_cond_update by simp
  have k2: "''alert_iocs'' \<in> fst ` set payload \<longleftrightarrow> truthy (iocs self)"
    unfolding p key_cond_update by simp
  have k3: "''alert_context'' \<in> fst ` set payload \<longleftrightarrow> truthy (alert_context self)"
    unfolding p key_cond_update by simp
  have n: "map_of payload ''alert_note'' = Some fnote"
    unfolding p map_of_cond_update by simp
  have t: "map_of payload ''alert_tags'' = Some ftags"
    unfolding p map_of_cond_update by simp
  from fn n have n0: "alert_note self = PNone \<longrightarrow> map_of payload ''alert_note'' = Some PNone"
    by (auto simp: format_string_with_match_def)
  from ft t have t0: "alert_tags self = PNone \<longrightarrow> map_of payload ''alert_tags'' = Some PNone"
    by (auto simp: format_string_with_match_def)
  from k1 k2 k3 fn n ft t n0 t0 show ?thesis by blast
qed

theorem make_alert_optional_keys_witness:
  "alert_note (init (example_env offline) example_rule) = PNone
   \<and> alert_tags (init (example_env offline) example_rule) = PNone
   \<and> \<not> truthy (alert_source_link (init (example_env offline) example_rule))
   \<and> ''alert_source_link'' \<notin> fst ` set [(''alert_title'', PStr ''Rule fired''),
       (''alert_description'', PStr ''Rule fired: 1 match''),
       (''alert_source'', PStr ''ElastAlert2''),
       (''alert_severity_id'', PInt 1), (''alert_status_id'', PInt 2),
       (''alert_source_event_time'', PStr ''2024-05-01T12:00:00''),
       (''alert_note'', PNone), (''alert_tags'', PNone),
       (''alert_customer_id'', PInt 1)]
   \<and> map_of [(''alert_title'', PStr ''Rule fired''),
       (''alert_description'', PStr ''Rule fired: 1 match''),
       (''alert_source'', PStr ''ElastAlert2''),
       (''alert_severity_id'', PInt 1), (''alert_status_id'', PInt 2),
       (''alert_source_event_time'', PStr ''2024-05-01T12:00:00''),
       (''alert_note'', PNone), (''alert_tags'', PNone),
       (''alert_customer_id'', PInt 1)] ''alert_note'' = Some PNone"
proof -
  have n: "alert_note (init (example_env offline) example_rule) = PNone"
    and t: "alert_tags (init (example_env offline) example_rule) = PNone"
    and l: "\<not> truthy (alert_source_link (init (example_env offline) example_rule))"
    by (simp_all add: init_def example_rule_def dict_get_def)
  from make_alert_optional_keys [OF example_make_alert [of offline]] n t l
  show ?thesis by blast
qed

theorem make_alert_note_key_with_none:
  "alert_note (init (example_env offline) example_rule) = PNone
   \<and> make_alert (example_env offline) (init (example_env offline) example_rule) [ioc_match] =
    ([LogInfo ''IRIS Alert Tags: None''],
     Inr [(''alert_title'', PStr ''Rule fired''),
       (''alert_description'', PStr ''Rule fired: 1 match''),
       (''alert_source'', PStr ''ElastAlert2''),
       (''alert_severity_id'', PInt 1), (''alert_status_id'', PInt 2),
       (''alert_source_event_time'', PStr ''2024-05-01T12:00:00''),
       (''alert_note'', PNone), (''alert_tags'', PNone),
       (''alert_customer_id'', PInt 1)])
   \<and> map_of [(''alert_title'', PStr ''Rule fired''),
       (''alert_description'', PStr ''Rule fired: 1 match''),
       (''alert_source'', PStr ''ElastAlert2''),
       (''alert_severity_id'', PInt 1), (''alert_status_id'', PInt 2),
       (''alert_source_event_time'', PStr ''2024-05-01T12:00:00''),
       (''alert_note'', PNone), (''alert_tags'', PNone),
       (''alert_customer_id'', PInt 1)] ''alert_note'' = Some PNone"
proof -
  have "alert_note (init (example_env offline) example_rule) = PNone"
    by (simp add: init_def example_rule_def dict_get_def)
  with example_make_alert [of offline] show ?thesis by simp
qed

text \<open>
  Claim C7, amended. In every payload built by \<^verbatim>\<open>make_alert\<close>: when the configured
  description is empty (\<^verbatim>\<open>None\<close> or the empty string, the test \<^verbatim>\<open>not self.description\<close>), the
  key \<^verbatim>\<open>alert_description\<close> holds the standard body \<^verbatim>\<open>create_alert_body(matches)\<close>;
  otherwise it holds the formatted description template, also when the formatted text is
  empty. A payload is built for every non-empty list of matches, provided that the IOC
  records and the context records, where configured, are built. The third theorem below
  is a run in which the description is one token for a field that holds the empty
  string: the description formats to the empty string, and the payload keeps it instead
  of the standard body.
\<close>

theorem make_alert_description:
  "(\<forall>evs payload. make_alert env self matches = (evs, Inr payload) \<longrightarrow>
       (\<not> truthy (description self) \<longrightarrow>
            map_of payload ''alert_description'' = Some (create_alert_body env matches))
     \<and> (truthy (description self) \<longrightarrow>
            (\<exists>d. format_string_with_match env (description self) matches = Inr d
                 \<and> map_of payload ''alert_description'' = Some d)))
   \<and> (matches \<noteq> []
       \<and> (truthy (iocs self) \<longrightarrow> (\<exists>rs. make_iocs_records env self matches = Inr rs))
       \<and> (truthy (alert_context self) \<longrightarrow>
             (\<exists>c. make_alert_context_records env self matches = Inr c))
       \<longrightarrow> (\<exists>evs payload. make_alert env self matches = (evs, Inr payload)))"
proof (intro conjI allI impI)
  fix evs payload
  assume A: "make_alert env self matches = (evs, Inr payload)"
  from A obtain ts fd fnote ftags title iv cv where
    fd: "format_string_with_match env (description self) matches = Inr fd"
    and p: "payload =
      (if truthy (alert_context self) then dict_update ''alert_context'' cv else id)
       ((if truthy (iocs self) then dict_update ''alert_iocs'' iv else id)
        ((if truthy (alert_source_link self)
          then dict_update ''alert_source_link'' (alert_source_link self) else id)
         ((if \<not> truthy (description self)
           then dict_update ''alert_description'' (create_alert_body env matches) else id)
          [(''alert_title'', title),
           (''alert_description'', fd),
           (''alert_source'', alert_source self),
           (''alert_severity_id'', alert_severity_id self),
           (''alert_status_id'', alert_status_id self),
           (''alert_source_event_time'', ts),
           (''alert_note'', fnote),
           (''alert_tags'', ftags),
           (''alert_customer_id'', customer_id self)])))"
    by (rule make_alert_shape)
  have m: "map_of payload ''alert_description'' =
        Some (if truthy (description self) then fd else create_alert_body env matches)"
    unfolding p map_of_cond_update by simp
  {
    assume "\<not> truthy (description self)"
    with m show "map_of payload ''alert_description'' = Some (create_alert_body env matches)"
      by simp
  }
  {
    assume "truthy (description self)"
    with m fd show "\<exists>d. format_string_with_match env (description self) matches = Inr d
                 \<and> map_of payload ''alert_description'' = Some d"
      by simp
  }
next
  assume h: "matches \<noteq> []
       \<and> (truthy (iocs self) \<longrightarrow> (\<exists>rs. make_iocs_records env self matches = Inr rs))
       \<and> (truthy (alert_context self) \<longrightarrow>
             (\<exists>c. make_alert_context_records env self matches = Inr c))"
  then obtain m ms where ms: "matches = m # ms" by (cases matches) auto
  from h show "\<exists>evs payload. make_alert env self matches = (evs, Inr payload)"
    unfolding ms by (intro make_alert_returns) simp_all
qed

theorem make_alert_description_witness:
  "[ioc_match] \<noteq> []
   \<and> \<not> truthy (description (init (example_env offline) example_rule))
   \<and> (\<exists>evs payload.
         make_alert (example_env offline) (init (example_env offline) example_rule) [ioc_match]
           = (evs, Inr payload)
         \<and> map_of payload ''alert_description'' = Some (PStr ''Rule fired: 1 match''))
   \<and> truthy (description (init (example_env offline) described_rule))
   \<and> (\<exists>evs payload.
         make_alert (example_env offline) (init (example_env offline) described_rule) [ioc_match]
           = (evs, Inr payload)
         \<and> map_of payload ''alert_description'' = Some (PStr ''Source 10.0.0.7''))"
proof -
  let ?E = "example_env offline"
  let ?S1 = "init ?E example_rule"
  let ?S2 = "init ?E described_rule"
  let ?M = "[ioc_match]"
  note t1 = make_alert_description [of ?E ?S1 ?M]
  note t2 = make_alert_description [of ?E ?S2 ?M]
  have body: "create_alert_body ?E ?M = PStr ''Rule fired: 1 match''"
    by (simp add: example_env_def)
  from t1 example_unset_options(2,3) [of offline]
  obtain evs1 p1 where r1: "make_alert ?E ?S1 ?M = (evs1, Inr p1)" by auto
  from t1 r1 example_unset_options(1) [of offline] body
  have d1: "map_of p1 ''alert_description'' = Some (PStr ''Rule fired: 1 match'')" by auto
  from t2 example_unset_options(5,6) [of offline]
  obtain evs2 p2 where r2: "make_alert ?E ?S2 ?M = (evs2, Inr p2)" by auto
  from t2 r2 example_unset_options(4) [of offline] example_format_description(1) [of offline]
  have d2: "map_of p2 ''alert_description'' = Some (PStr ''Source 10.0.0.7'')" by auto
  from r1 d1 r2 d2 example_unset_options(1,4) [of offline] show ?thesis by auto
qed

theorem make_alert_keeps_empty_formatted_description:
  "format_string_with_match (example_env offline)
        (description (init (example_env offline) empty_text_rule)) [ioc_match]
       = Inr (PStr [])
   \<and> make_alert (example_env offline) (init (example_env offline) empty_text_rule) [ioc_match] =
    ([LogInfo ''IRIS Alert Tags: None''],
     Inr [(''alert_title'', PStr ''Rule fired''),
       (''alert_description'', PStr []),
       (''alert_source'', PStr ''ElastAlert2''),
       (''alert_severity_id'', PInt 1), (''alert_status_id'', PInt 2),
       (''alert_source_event_time'', PStr ''2024-05-01T12:00:00''),
       (''alert_note'', PNone), (''alert_tags'', PNone),
       (''alert_customer_id'', PInt 1)])
   \<and> create_alert_body (example_env offline) [ioc_match] = PStr ''Rule fired: 1 match''
   \<and> map_of [(''alert_title'', PStr ''Rule fired''),
       (''alert_description'', PStr []),
       (''alert_source'', PStr ''ElastAlert2''),
       (''alert_severity_id'', PInt 1), (''alert_status_id'', PInt 2),
       (''alert_source_event_time'', PStr ''2024-05-01T12:00:00''),
       (''alert_note'', PNone), (''alert_tags'', PNone),
       (''alert_customer_id'', PInt 1)] ''alert_description''
     \<noteq> Some (create_alert_body (example_env offline) [ioc_match])"
proof -
  have body: "create_alert_body (example_env offline) [ioc_match] = PStr ''Rule fired: 1 match''"
    by (simp add: example_env_def)
  from example_format_description(2) [of offline] example_make_alert_empty_text [of offline] body
  show ?thesis by simp
qed

text \<open>
  Claim C8. \<^verbatim>\<open>None\<close> passes through the formatter, for every list of matches, and a
  template in which the pattern matches nowhere is returned unchanged.
\<close>

theorem format_identity:
  "format_string_with_match env PNone matches = Inr PNone
   \<and> (token_free t \<longrightarrow> format_string_with_match env (PStr t) matches = Inr (PStr t))"
  by (simp add: format_string_with_match_def py_str_def re_sub_token_free)

theorem format_identity_witness:
  "token_free ''Suspicious login {0[user}''
   \<and> format_string_with_match (example_env offline)
        (PStr ''Suspicious login {0[user}'') [[(''user'', PStr ''bob'')]]
       = Inr (PStr ''Suspicious login {0[user}'')"
proof -
  have tf: "token_free ''Suspicious login {0[user}''"
    by (simp add: match_token_def)
  with format_identity [of "example_env offline"
      "[[(''user'', PStr ''bob'')]]" "''Suspicious login {0[user}''"]
  show ?thesis by simp
qed

text \<open>
  Claim C9. Where the text of the template is \<open>pre\<close>, then a token \<^verbatim>\<open>{0[f]}\<close> that the scan
  reaches, then \<open>post\<close>, and the first match holds a list at \<open>f\<close>, the result is the formatted
  \<open>pre\<close>, then the elements of the list, each converted by \<^verbatim>\<open>str\<close>, joined by a comma and a
  space, then the formatted \<open>post\<close>; text around the token that holds no token is unchanged.
\<close>

theorem format_list_join:
  assumes "template \<noteq> PNone"
    and "str_of env template = pre @ ''{0['' @ f @ '']}'' @ post"
    and "no_open_token pre" and "f \<noteq> []" and "CHR '']'' \<notin> set f"
    and "lookup_es_key env m (PStr f) = PList items"
  shows "\<exists>a c. format_string_with_match env (PStr pre) (m # ms) = Inr (PStr a)
            \<and> format_string_with_match env (PStr post) (m # ms) = Inr (PStr c)
            \<and> (token_free pre \<longrightarrow> a = pre) \<and> (token_free post \<longrightarrow> c = post)
            \<and> format_string_with_match env template (m # ms)
                = Inr (PStr (a @ py_join '', '' (map (str_of env) items) @ c))"
proof -
  from assms(6) have "replace_field env (m # ms) f = Inr (py_join '', '' (map (str_of env) items))"
    by (simp add: replace_field_def)
  from format_at_token [OF assms(1-5) this]
  obtain a c where a: "format_string_with_match env (PStr pre) (m # ms) = Inr (PStr a)"
    and c: "format_string_with_match env (PStr post) (m # ms) = Inr (PStr c)"
    and t: "format_string_with_match env template (m # ms)
                = Inr (PStr (a @ py_join '', '' (map (str_of env) items) @ c))"
    by blast
  from a have "token_free pre \<longrightarrow> a = pre"
    by (auto simp: format_string_with_match_def py_str_def re_sub_token_free)
  moreover from c have "token_free post \<longrightarrow> c = post"
    by (auto simp: format_string_with_match_def py_str_def re_sub_token_free)
  ultimately show ?thesis using a c t by blast
qed

theorem format_list_join_witness:
  "format_string_with_match (example_env offline)
      (PStr ''ports: {0[dst.ports]}!'')
      [[(''dst'', PDict [(''ports'', PList [PInt 22, PStr ''http'', PInt 443])])]]
    = Inr (PStr ''ports: 22, http, 443!'')"
proof -
  let ?E = "example_env offline"
  let ?m = "[(''dst'', PDict [(''ports'', PList [PInt 22, PStr ''http'', PInt 443])])]"
  have h1: "PStr ''ports: {0[dst.ports]}!'' \<noteq> PNone" by simp
  have h2: "str_of ?E (PStr ''ports: {0[dst.ports]}!'')
             = ''ports: '' @ ''{0['' @ ''dst.ports'' @ '']}'' @ ''!''"
    by (simp add: py_str_def)
  have h3: "no_open_token ''ports: ''" by simp
  have h4: "''dst.ports'' \<noteq> []" by simp
  have h5: "CHR '']'' \<notin> set ''dst.ports''" by simp
  have h6: "lookup_es_key ?E ?m (PStr ''dst.ports'') = PList [PInt 22, PStr ''http'', PInt 443]"
    by (simp add: example_env_def dotted_lookup_def)
  have tf: "token_free ''ports: ''" "token_free ''!''" by (simp_all add: match_token_def)
  have n22: "int_to_str 22 = ''22''" by code_simp
  have n443: "int_to_str 443 = ''443''" by code_simp
  from format_list_join [OF h1 h2 h3 h4 h5 h6, of "[]"] tf
  have "format_string_with_match ?E (PStr ''ports: {0[dst.ports]}!'') [?m]
        = Inr (PStr (''ports: '' @ py_join '', '' (map (str_of ?E) [PInt 22, PStr ''http'', PInt 443]) @ ''!''))"
    by auto
  then show ?thesis by (simp add: py_str_def n22 n443)
qed

text \<open>
  Claim C10. In case mode, when the case creation returns status 200 and a JSON object
  without the key \<^verbatim>\<open>data\<close>, the look-up of \<^verbatim>\<open>data\<close> gives the default, the empty string,
  on which \<^verbatim>\<open>.get('case_id')\<close> raises an \<^verbatim>\<open>AttributeError\<close>; the invocation ends with
  that exception, which is not an \<^verbatim>\<open>EAException\<close>, and its only HTTP call is the case
  creation: no IOC call is made.
\<close>

theorem case_without_data_attribute_error:
  assumes "type self = PStr s" and "\<not> str_contains ''alert'' s" and "str_contains ''case'' s"
    and "verify = (if truthy (ca_cert self) then ca_cert self
                   else PBool (\<not> truthy (ignore_ssl_errors self)))"
    and "make_case env self matches = Inr (case_data, rs)"
    and "creq = \<lparr> req_url = url self @ ''/manage/cases/add'', req_headers = headers self,
                  req_json = PDict case_data, req_verify = verify \<rparr>"
    and "requests_post env [] creq = Inr cresp" and "status_code cresp = 200"
    and "json cresp = Inr (PDict body)" and "''data'' \<notin> fst ` set body"
  shows "py_get (PDict body) ''data'' (PStr []) = Inr (PStr [])
       \<and> py_get (PStr []) ''case_id'' PNone = Inl (AttributeError ''get'')
       \<and> posts (fst (alert env self matches)) = [creq]
       \<and> snd (alert env self matches) = Inl (AttributeError ''get'')"
proof -
  note e = alert_in_case_mode [OF assms(1-4) refl, of env matches]
  from assms(10) have nd: "map_of body ''data'' = None"
    by (simp add: map_of_eq_None_iff)
  then have g: "py_get (PDict body) ''data'' (PStr []) = Inr (PStr [])"
    by (simp add: py_get_def dict_get_def)
  have g2: "py_get (PStr []) ''case_id'' PNone = Inl (AttributeError ''get'')"
    by (simp add: py_get_def)
  from assms(5-9) g g2
  have "case_branch env self verify matches = ([Post creq (Inr cresp)], Inl (AttributeError ''get''))"
    by (simp add: case_branch_def Let_def)
  with g g2 show ?thesis
    unfolding e by (simp add: posts_append)
qed

theorem case_without_data_attribute_error_witness:
  "map req_url (posts (fst (alert (example_env no_data)
        (init (example_env no_data) case_rule) [full_match])))
     = [''https://iris.example.org/manage/cases/add'']
   \<and> snd (alert (example_env no_data) (init (example_env no_data) case_rule) [full_match])
     = Inl (AttributeError ''get'')"
proof -
  let ?E = "example_env no_data"
  let ?S = "init ?E case_rule"
  let ?cd = "[(''case_soc_id'', PStr ''SOC_3f2a9c''),
           (''case_customer'', PInt 1),
           (''case_name'', PStr ''ssh brute force''),
           (''case_description'', PNone)]"
  let ?rs = "[[(''ioc_type_id'', PInt 76), (''ioc_value'', PStr ''10.0.0.7'')],
           [(''ioc_type_id'', PInt 20), (''ioc_value'', PStr ''web01'')],
           [(''ioc_type_id'', PInt 90), (''ioc_value'', PStr [])]]"
  let ?creq = "\<lparr> req_url = url ?S @ ''/manage/cases/add'', req_headers = headers ?S,
                  req_json = PDict ?cd, req_verify = PBool True \<rparr>"
  let ?ok = "\<lparr> status_code = 200, json = Inr (PDict [(''status'', PStr ''success'')]) \<rparr>"
  have h1: "type ?S = PStr ''case''" by (rule case_self)
  have h2: "\<not> str_contains ''alert'' ''case''" by simp
  have h3: "str_contains ''case'' ''case''" by simp
  have h4: "PBool True = (if truthy (ca_cert ?S) then ca_cert ?S
                   else PBool (\<not> truthy (ignore_ssl_errors ?S)))"
    by (simp add: case_self)
  have h5: "make_case ?E ?S [full_match] = Inr (?cd, ?rs)" by (rule case_make_case)
  have h6: "?creq = \<lparr> req_url = url ?S @ ''/manage/cases/add'', req_headers = headers ?S,
                  req_json = PDict ?cd, req_verify = PBool True \<rparr>" by simp
  have h7: "requests_post ?E [] ?creq = Inr ?ok"
    by (simp add: example_env_def no_data_def)
  have h8: "status_code ?ok = 200" by simp
  have h9: "json ?ok = Inr (PDict [(''status'', PStr ''success'')])" by simp
  have h10: "''data'' \<notin> fst ` set [(''status'', PStr ''success'')]" by simp
  from case_without_data_attribute_error [OF h1 h2 h3 h4 h5 h6 h7 h8 h9 h10]
  show ?thesis
    by (simp add: case_self)
qed

end
